theory Spec2Isabelle
  imports Complex_Main "HOL-Library.Sublist"
begin

section \<open>Text normalisation (match_locations.py, normalize_text and remove_location_prefixes)\<close>

text \<open>
  Python strings are sequences of code points. Here a \<open>char\<close> stands for one code point
  in the range U+0000..U+00FF (Latin-1, which holds every letter of Spanish text), so a
  \<open>string\<close> is a Python string over that range and \<open>length\<close> counts code points.
  The three tables below are the restrictions of \<open>str.lower\<close>, of NFD decomposition
  followed by the removal of category Mn, and of \<open>str.isspace\<close> to that range.
\<close>

definition lower_char :: "char \<Rightarrow> char" where
  "lower_char c =
     (let n = (of_char c :: nat)
      in if (65 \<le> n \<and> n \<le> 90) \<or> (192 \<le> n \<and> n \<le> 222 \<and> n \<noteq> 215)
         then char_of (n + 32) else c)"

definition nfd_drop_Mn :: "char \<Rightarrow> char" where
  "nfd_drop_Mn c =
     (let n = (of_char c :: nat)
      in if 192 \<le> n \<and> n \<le> 197 then CHR ''A''
         else if n = 199 then CHR ''C''
         else if 200 \<le> n \<and> n \<le> 203 then CHR ''E''
         else if 204 \<le> n \<and> n \<le> 207 then CHR ''I''
         else if n = 209 then CHR ''N''
         else if 210 \<le> n \<and> n \<le> 214 then CHR ''O''
         else if 217 \<le> n \<and> n \<le> 220 then CHR ''U''
         else if n = 221 then CHR ''Y''
         else if 224 \<le> n \<and> n \<le> 229 then CHR ''a''
         else if n = 231 then CHR ''c''
         else if 232 \<le> n \<and> n \<le> 235 then CHR ''e''
         else if 236 \<le> n \<and> n \<le> 239 then CHR ''i''
         else if n = 241 then CHR ''n''
         else if 242 \<le> n \<and> n \<le> 246 then CHR ''o''
         else if 249 \<le> n \<and> n \<le> 252 then CHR ''u''
         else if n = 253 \<or> n = 255 then CHR ''y''
         else c)"

definition is_space :: "char \<Rightarrow> bool" where
  "is_space c =
     (let n = (of_char c :: nat)
      in (9 \<le> n \<and> n \<le> 13) \<or> (28 \<le> n \<and> n \<le> 32) \<or> n = 133 \<or> n = 160)"

definition strip :: "string \<Rightarrow> string" where
  "strip s = rev (dropWhile is_space (rev (dropWhile is_space s)))"

definition normalize_text :: "string \<Rightarrow> string" where
  "normalize_text text =
     (if text = [] then []
      else strip (map nfd_drop_Mn (map lower_char text)))"


definition prefixes :: "string list" where
  "prefixes =
     [''residencial '', ''colonia '', ''urbanizacion '', ''urbanizaci'' @ [CHR 0xF3] @ ''n '',
      ''barrio '', ''lotificacion '', ''lotificaci'' @ [CHR 0xF3] @ ''n '', ''reparto '',
      ''comunidad '', ''cant'' @ [CHR 0xF3] @ ''n '', ''canton '', ''caserio '',
      ''col. '', ''res. '', ''urb. '', ''bo. '',
      ''la '', ''el '', ''los '', ''las '']"

text \<open>The inner \<open>for\<close> loop: the first prefix of the list that the text starts with.\<close>

fun first_prefix :: "string list \<Rightarrow> string \<Rightarrow> string option" where
  "first_prefix [] s = None"
| "first_prefix (p # ps) s = (if prefix p s then Some p else first_prefix ps s)"

text \<open>The \<open>while changed\<close> loop: strip one prefix and start over, until none matches.\<close>

function strip_loop :: "string \<Rightarrow> string" where
  "strip_loop s =
     (case first_prefix prefixes s of
        None \<Rightarrow> s
      | Some p \<Rightarrow> strip_loop (drop (length p) s))"
  by pat_completeness auto
termination
proof (relation "measure length")
  show "wf (measure length)" by simp
next
  fix s p
  assume a: "first_prefix prefixes s = Some p"
  have found: "first_prefix ps s = Some p \<Longrightarrow> p \<in> set ps \<and> prefix p s" for ps
    by (induction ps) (auto split: if_splits)
  from found[OF a] have pin: "p \<in> set prefixes" and pre: "prefix p s" by simp_all
  have "list_all (\<lambda>q. q \<noteq> []) prefixes" by (simp add: prefixes_def)
  with pin have "p \<noteq> []" unfolding list_all_iff by blast
  with pre have "length s - length p < length s"
    by (cases p) (auto simp: prefix_def)
  then show "(drop (length p) s, s) \<in> measure length" by simp
qed

declare strip_loop.simps [simp del]

definition remove_location_prefixes :: "string \<Rightarrow> string" where
  "remove_location_prefixes text = strip (strip_loop (normalize_text text))"


section \<open>The hierarchy index (load_location_groups)\<close>

text \<open>
  Location ids are Python ints. One entry of \<open>groups[level]\<close> is a dict with the keys
  name, normalized, no_prefix, alt_names and parent_id (and id, which repeats the key it
  is stored under); a level is a dict from id to entry, kept here as an association list
  in insertion order, which is the order Python iterates it in; \<open>groups\<close> maps a level
  number to its dict, and \<open>groups.get(level, {})\<close> reads a missing level as empty.
\<close>

type_synonym loc_id = int

record loc_info =
  name :: string
  normalized :: string
  no_prefix :: string
  alt_names :: "string list"
  parent_id :: "loc_id option"

type_synonym level_data = "(loc_id \<times> loc_info) list"

type_synonym groups = "nat \<rightharpoonup> level_data"

definition groups_get :: "groups \<Rightarrow> nat \<Rightarrow> level_data" where
  "groups_get g level = (case g level of None \<Rightarrow> [] | Some d \<Rightarrow> d)"

text \<open>
  A row of the table sv_loc_group<level>, as far as the loader reads it; a missing or
  null text field is the empty string.
\<close>

record loc_row =
  loc_name :: string
  loc_name_search :: string
  row_details :: string
  parent_loc_group :: "loc_id option"

definition load_row :: "loc_row \<Rightarrow> loc_info" where
  "load_row row =
     \<lparr> name = loc_name row,
       normalized = normalize_text (if loc_name_search row \<noteq> [] then loc_name_search row
                                    else loc_name row),
       no_prefix = remove_location_prefixes (loc_name row),
       alt_names = (if row_details row \<noteq> []
                    then [normalize_text (row_details row),
                          remove_location_prefixes (row_details row)]
                    else []),
       parent_id = parent_loc_group row \<rparr>"

section \<open>Word-boundary search\<close>

text \<open>
  \<open>\w\<close> of Python's \<open>re\<close> on str patterns, restricted to U+0000..U+00FF: the characters
  that are alphanumeric for \<open>str.isalnum\<close>, and the underscore.
\<close>

definition is_word_char :: "char \<Rightarrow> bool" where
  "is_word_char c =
     (let n = (of_char c :: nat)
      in (48 \<le> n \<and> n \<le> 57) \<or> (65 \<le> n \<and> n \<le> 90) \<or> n = 95 \<or> (97 \<le> n \<and> n \<le> 122)
         \<or> n = 170 \<or> n = 178 \<or> n = 179 \<or> n = 181 \<or> n = 185 \<or> n = 186
         \<or> (188 \<le> n \<and> n \<le> 190) \<or> (192 \<le> n \<and> n \<le> 214) \<or> (216 \<le> n \<and> n \<le> 246)
         \<or> 248 \<le> n)"

text \<open>
  \<open>\b\<close> holds at a position when exactly one of the characters before and after it is a
  word character; the start and the end of the text count as non-word.
\<close>

definition is_word_opt :: "char option \<Rightarrow> bool" where
  "is_word_opt x = (case x of None \<Rightarrow> False | Some c \<Rightarrow> is_word_char c)"

definition word_boundary :: "char option \<Rightarrow> char option \<Rightarrow> bool" where
  "word_boundary before after = (is_word_opt before \<noteq> is_word_opt after)"

fun head_opt :: "string \<Rightarrow> char option" where
  "head_opt [] = None"
| "head_opt (c # cs) = Some c"

fun last_opt :: "char option \<Rightarrow> string \<Rightarrow> char option" where
  "last_opt prev [] = prev"
| "last_opt prev (c # cs) = last_opt (Some c) cs"

text \<open>
  The pattern \<open>\b\<close> + \<open>re.escape(pat)\<close> + \<open>\b\<close> matches at the current position, where
  \<open>prev\<close> is the character before it and \<open>rest\<close> the text from it on.
\<close>

definition match_here :: "char option \<Rightarrow> string \<Rightarrow> string \<Rightarrow> bool" where
  "match_here prev pat rest =
     (word_boundary prev (head_opt rest) \<and> prefix pat rest
      \<and> word_boundary (last_opt prev pat) (head_opt (drop (length pat) rest)))"

fun search_from :: "char option \<Rightarrow> string \<Rightarrow> string \<Rightarrow> bool" where
  "search_from prev pat [] = match_here prev pat []"
| "search_from prev pat (c # cs) = (match_here prev pat (c # cs) \<or> search_from (Some c) pat cs)"

text \<open>\<open>re.search(r'\b' + re.escape(pat) + r'\b', text)\<close> finds a match.\<close>

definition word_search :: "string \<Rightarrow> string \<Rightarrow> bool" where
  "word_search pat text = search_from None pat text"

text \<open>Python's \<open>pat in text\<close> on strings.\<close>

fun is_substring :: "string \<Rightarrow> string \<Rightarrow> bool" where
  "is_substring pat [] = (pat = [])"
| "is_substring pat (c # cs) = (prefix pat (c # cs) \<or> is_substring pat cs)"

section \<open>Text sources and scores\<close>

datatype source = Location | Title | Details | Description

text \<open>
  The dict \<open>texts\<close> from source to normalised text, in insertion order. Scores are Python
  floats; the model computes them as exact rationals. Every score the matchers compare is
  a product or sum of the constants below, and no two distinct values among them are
  closer than 0.001, so the comparisons come out as in floating point.
\<close>

type_synonym texts = "(source \<times> string) list"

definition texts_get :: "texts \<Rightarrow> source \<Rightarrow> string" where
  "texts_get texts src = (case map_of texts src of None \<Rightarrow> [] | Some t \<Rightarrow> t)"

definition MIN_SCORE :: rat where
  "MIN_SCORE = 9 / 10"

text \<open>
  \<open>round(score, 2)\<close>, on the exact value and with halves rounded up. Python rounds the
  binary float; among the scores that the matchers can produce the two differ only at
  0.865 (an alternate name of a department found in the location line), which Python
  rounds to 0.86.
\<close>

definition round2 :: "rat \<Rightarrow> rat" where
  "round2 x = of_int (round (x * 100)) / 100"

text \<open>\<open>text[:255] if text else None\<close>.\<close>

definition truncate255 :: "string \<Rightarrow> string option" where
  "truncate255 t = (if t = [] then None else Some (take 255 t))"

text \<open>The loop over \<open>alt_names\<close> with its \<open>break\<close>: the first alternate name found as a word.\<close>

fun first_alt :: "string list \<Rightarrow> string \<Rightarrow> string option" where
  "first_alt [] text = None"
| "first_alt (alt # alts) text =
     (if alt \<noteq> [] \<and> word_search alt text then Some alt else first_alt alts text)"

section \<open>Strategy A: find_match_in_level and find_best_match_in_level\<close>

text \<open>The quick check on the alternate names: one of them is non-empty and a substring.\<close>

fun has_alt :: "string list \<Rightarrow> string \<Rightarrow> bool" where
  "has_alt [] text = False"
| "has_alt (alt # alts) text = (if alt \<noteq> [] \<and> is_substring alt text then True else has_alt alts text)"

text \<open>The score and matched name of one entry, before the source factor.\<close>

definition name_score :: "string \<Rightarrow> loc_info \<Rightarrow> rat \<times> string" where
  "name_score text loc_info =
     (if word_search (normalized loc_info) text then (1, name loc_info)
      else if no_prefix loc_info \<noteq> [] \<and> word_search (no_prefix loc_info) text
        then (95 / 100, name loc_info)
      else (case first_alt (alt_names loc_info) text of
              Some alt \<Rightarrow> (9 / 10, name loc_info @ '' ('' @ alt @ '')'')
            | None \<Rightarrow> (0, normalized loc_info)))"

fun source_weight :: "source \<Rightarrow> rat" where
  "source_weight Title = 1"
| "source_weight Location = 95 / 100"
| "source_weight Details = 85 / 100"
| "source_weight Description = 75 / 100"

text \<open>One round of the loop over \<open>level_data.items()\<close>; the state is (best_match, best_score).\<close>

fun fmil_step ::
  "string \<Rightarrow> source \<Rightarrow> loc_id \<times> loc_info \<Rightarrow>
   (loc_id \<times> rat \<times> string) option \<times> rat \<Rightarrow> (loc_id \<times> rat \<times> string) option \<times> rat" where
  "fmil_step text src (loc_id, loc_info) (best_match, best_score) =
     (if normalized loc_info = [] then (best_match, best_score)
      else if \<not> is_substring (normalized loc_info) text \<and> \<not> has_alt (alt_names loc_info) text
        then (best_match, best_score)
      else (case name_score text loc_info of
              (score, matched_name) \<Rightarrow>
                if score > 0
                then (if score * source_weight src > best_score
                      then (Some (loc_id, score * source_weight src, matched_name),
                            score * source_weight src)
                      else (best_match, best_score))
                else (best_match, best_score)))"

definition find_match_in_level ::
  "string \<Rightarrow> level_data \<Rightarrow> source \<Rightarrow> (loc_id \<times> rat \<times> string) option" where
  "find_match_in_level text level_data src =
     (if text = [] then None
      else fst (fold (fmil_step text src) level_data (None, 0)))"

text \<open>One round of the loop over the four sources; the state is (best, best_score).\<close>

fun fbmil_step ::
  "texts \<Rightarrow> level_data \<Rightarrow> loc_id option \<Rightarrow> source \<Rightarrow>
   (loc_id \<times> rat \<times> string \<times> source) option \<times> rat \<Rightarrow>
   (loc_id \<times> rat \<times> string \<times> source) option \<times> rat" where
  "fbmil_step texts level_data parent_filter src (best, best_score) =
     (if texts_get texts src = [] then (best, best_score)
      else (case find_match_in_level (texts_get texts src)
                   (case parent_filter of
                      Some p \<Rightarrow> filter (\<lambda>(k, v). parent_id v = Some p) level_data
                    | None \<Rightarrow> level_data)
                   src of
              None \<Rightarrow> (best, best_score)
            | Some (loc_id, score, matched_text) \<Rightarrow>
                if (if src = Location then score + 1 / 100 else score) > best_score
                then (Some (loc_id, (if src = Location then score + 1 / 100 else score),
                            matched_text, src),
                      (if src = Location then score + 1 / 100 else score))
                else (best, best_score)))"

definition find_best_match_in_level ::
  "texts \<Rightarrow> level_data \<Rightarrow> loc_id option \<Rightarrow> (loc_id \<times> rat \<times> string \<times> source) option" where
  "find_best_match_in_level texts level_data parent_filter =
     fst (fold (fbmil_step texts level_data parent_filter)
            [Location, Title, Details, Description] (None, 0))"

section \<open>The parent chain (get_parent_chain and get_parent_chain_local)\<close>

record chain =
  locGroup2Id :: "loc_id option"
  locGroup3Id :: "loc_id option"
  locGroup4Id :: "loc_id option"
  locGroup5Id :: "loc_id option"

definition empty_chain :: chain where
  "empty_chain = \<lparr> locGroup2Id = None, locGroup3Id = None, locGroup4Id = None, locGroup5Id = None \<rparr>"

text \<open>
  \<open>result[f'locGroup{current_level}Id'] = current_id\<close>. Every caller passes a level from
  2 to 4, and the loop stops at 5; for another level Python adds a key that no reader of
  the result looks at, and the model leaves the four fields as they are.
\<close>

definition set_level :: "nat \<Rightarrow> loc_id \<Rightarrow> 'a chain_scheme \<Rightarrow> 'a chain_scheme" where
  "set_level level i c =
     (if level = 2 then c\<lparr>locGroup2Id := Some i\<rparr>
      else if level = 3 then c\<lparr>locGroup3Id := Some i\<rparr>
      else if level = 4 then c\<lparr>locGroup4Id := Some i\<rparr>
      else if level = 5 then c\<lparr>locGroup5Id := Some i\<rparr>
      else c)"

text \<open>
  The \<open>while current_level <= 5\<close> loop. \<open>if parent_id:\<close> is Python truthiness: a parent
  id that is None or 0 ends the walk.
\<close>

function chain_loop :: "groups \<Rightarrow> loc_id \<Rightarrow> nat \<Rightarrow> chain \<Rightarrow> chain" where
  "chain_loop g current_id current_level result =
     (if current_level \<le> 5
      then (if current_level = 5 then set_level current_level current_id result
            else (case map_of (groups_get g current_level) current_id of
                    None \<Rightarrow> set_level current_level current_id result
                  | Some info \<Rightarrow>
                      (case parent_id info of
                         None \<Rightarrow> set_level current_level current_id result
                       | Some p \<Rightarrow>
                           if p \<noteq> 0
                           then chain_loop g p (current_level + 1)
                                  (set_level current_level current_id result)
                           else set_level current_level current_id result)))
      else result)"
  by pat_completeness auto
termination
  by (relation "measure (\<lambda>(g, i, level, r). 6 - level)") auto

declare chain_loop.simps [simp del]

definition get_parent_chain :: "loc_id \<Rightarrow> nat \<Rightarrow> groups \<Rightarrow> chain" where
  "get_parent_chain loc_id level g = chain_loop g loc_id level empty_chain"

text \<open>
  The local copy inside match_listing_with_texts has the same body line by line, with
  \<open>groups\<close> taken from the enclosing function.
\<close>

definition get_parent_chain_local :: "groups \<Rightarrow> loc_id \<Rightarrow> nat \<Rightarrow> chain" where
  "get_parent_chain_local g loc_id level = chain_loop g loc_id level empty_chain"

section \<open>Descendants of a department (get_ids_under_department and get_ids_under_dept)\<close>

text \<open>
  The source recurses from level 2 to 3 to 4; the three levels are written out. The
  result is a Python set, of which only membership and emptiness are used.
\<close>

definition ids_under_l4 :: "groups \<Rightarrow> loc_id \<Rightarrow> loc_id list" where
  "ids_under_l4 g dept_id =
     map fst (filter (\<lambda>(lid, info). parent_id info = Some dept_id) (groups_get g 4))"

definition ids_under_l3 :: "groups \<Rightarrow> loc_id \<Rightarrow> loc_id list" where
  "ids_under_l3 g dept_id =
     map fst (filter (\<lambda>(lid, info). case parent_id info of
                                        None \<Rightarrow> False
                                      | Some p \<Rightarrow> p \<in> set (ids_under_l4 g dept_id))
                (groups_get g 3))"

definition ids_under_l2 :: "groups \<Rightarrow> loc_id \<Rightarrow> loc_id list" where
  "ids_under_l2 g dept_id =
     map fst (filter (\<lambda>(lid, info). case parent_id info of
                                        None \<Rightarrow> False
                                      | Some p \<Rightarrow> p \<in> set (ids_under_l3 g dept_id))
                (groups_get g 2))"

definition get_ids_under_department :: "groups \<Rightarrow> nat \<Rightarrow> loc_id \<Rightarrow> loc_id list" where
  "get_ids_under_department g level dept_id =
     (if level = 4 then ids_under_l4 g dept_id
      else if level = 3 then ids_under_l3 g dept_id
      else if level = 2 then ids_under_l2 g dept_id
      else [])"


definition get_ids_under_dept :: "groups \<Rightarrow> nat \<Rightarrow> loc_id \<Rightarrow> loc_id list" where
  "get_ids_under_dept g level dept_id = get_ids_under_department g level dept_id"

section \<open>Match results\<close>

text \<open>
  The result dict: the four chain keys and the match fields. Strategy A stores
  \<open>externalId\<close> in it; the dict of Strategy B has no such key (its caller adds it), which
  is \<open>None\<close> here.
\<close>

record match_result = chain +
  externalId :: "int option"
  matchLevel :: "nat option"
  matchScore :: "rat option"
  matchSource :: "source option"
  matchedText :: "string option"

definition empty_result :: match_result where
  "empty_result =
     \<lparr> locGroup2Id = None, locGroup3Id = None, locGroup4Id = None, locGroup5Id = None,
       externalId = None, matchLevel = None, matchScore = None, matchSource = None,
       matchedText = None \<rparr>"

text \<open>\<open>result.update(parent_chain)\<close>: all four chain keys are overwritten.\<close>

definition update_chain :: "match_result \<Rightarrow> chain \<Rightarrow> match_result" where
  "update_chain r c =
     r\<lparr> locGroup2Id := locGroup2Id c, locGroup3Id := locGroup3Id c,
        locGroup4Id := locGroup4Id c, locGroup5Id := locGroup5Id c \<rparr>"

text \<open>The four assignments to matchLevel, matchScore, matchSource and matchedText.\<close>

definition set_match :: "match_result \<Rightarrow> nat \<Rightarrow> rat \<Rightarrow> source \<Rightarrow> string \<Rightarrow> match_result" where
  "set_match r level score src text =
     r\<lparr> matchLevel := Some level, matchScore := Some (round2 score),
        matchSource := Some src, matchedText := truncate255 text \<rparr>"

section \<open>Strategy A: match_listing\<close>

text \<open>
  A listing, with its text fields as strings (null is the empty string) and its location
  as a dict from key to string (a missing location is the empty dict). The source also
  accepts a location that is a JSON string and a details field that is a dict, which it
  parses or serialises first; that step is outside the model.
\<close>

record listing =
  external_id :: int
  listing_title :: string
  listing_location :: "string \<rightharpoonup> string"
  listing_details :: string
  listing_description :: string

fun join_space :: "string list \<Rightarrow> string" where
  "join_space [] = []"
| "join_space [x] = x"
| "join_space (x # y # ys) = x @ '' '' @ join_space (y # ys)"

definition loc_parts :: "(string \<rightharpoonup> string) \<Rightarrow> string list" where
  "loc_parts location =
     map normalize_text
       (filter (\<lambda>val. val \<noteq> [])
          (map (\<lambda>key. case location key of None \<Rightarrow> [] | Some val \<Rightarrow> val)
             [''municipio_detectado'', ''direccion'', ''departamento'', ''zona'']))"

definition extract_searchable_text :: "listing \<Rightarrow> texts" where
  "extract_searchable_text l =
     [(Title, normalize_text (listing_title l)),
      (Location, join_space (loc_parts (listing_location l))),
      (Details, normalize_text (listing_details l)),
      (Description, normalize_text (listing_description l))]"

text \<open>
  One round of the loop \<open>for level in [2, 3, 4]\<close>; the state is
  (best_lower, best_lower_level, best_lower_score).
\<close>

fun lower_step ::
  "groups \<Rightarrow> texts \<Rightarrow> loc_id \<Rightarrow> nat \<Rightarrow>
   (loc_id \<times> rat \<times> string \<times> source) option \<times> nat \<times> rat \<Rightarrow>
   (loc_id \<times> rat \<times> string \<times> source) option \<times> nat \<times> rat" where
  "lower_step g texts l5_id level (best_lower, best_lower_level, best_lower_score) =
     (if get_ids_under_department g level l5_id = []
      then (best_lower, best_lower_level, best_lower_score)
      else if filter (\<lambda>(k, v). k \<in> set (get_ids_under_department g level l5_id))
                (groups_get g level) = []
      then (best_lower, best_lower_level, best_lower_score)
      else (case find_best_match_in_level texts
                   (filter (\<lambda>(k, v). k \<in> set (get_ids_under_department g level l5_id))
                      (groups_get g level)) None of
              None \<Rightarrow> (best_lower, best_lower_level, best_lower_score)
            | Some (loc_id, score, matched_text, src) \<Rightarrow>
                if score \<ge> MIN_SCORE \<and> level < best_lower_level
                then (Some (loc_id, score, matched_text, src), level, score)
                else if score > best_lower_score \<and> level = best_lower_level
                then (Some (loc_id, score, matched_text, src), best_lower_level, score)
                else (best_lower, best_lower_level, best_lower_score)))"

text \<open>The branch taken when a department was found (it always returns the result).\<close>

definition department_first ::
  "groups \<Rightarrow> texts \<Rightarrow> match_result \<Rightarrow> loc_id \<times> rat \<times> string \<times> source \<Rightarrow> match_result" where
  "department_first g texts result l5_match =
     (case l5_match of
        (l5_id, l5_score, l5_text, l5_source) \<Rightarrow>
          (case fold (lower_step g texts l5_id) [2, 3, 4] (None, 5, 0) of
             (None, best_lower_level, best_lower_score) \<Rightarrow>
               set_match (result\<lparr>locGroup5Id := Some l5_id\<rparr>) 5 l5_score l5_source l5_text
           | (Some (loc_id, score, matched_text, src), best_lower_level, best_lower_score) \<Rightarrow>
               set_match
                 (update_chain
                    (set_match (result\<lparr>locGroup5Id := Some l5_id\<rparr>) 5 l5_score l5_source l5_text)
                    (get_parent_chain loc_id best_lower_level g))
                 best_lower_level score src matched_text))"

text \<open>"Try L2 directly as last resort", and the final \<open>return None\<close>.\<close>

definition last_resort :: "groups \<Rightarrow> texts \<Rightarrow> match_result \<Rightarrow> match_result option" where
  "last_resort g texts result =
     (case find_best_match_in_level texts (groups_get g 2) None of
        None \<Rightarrow> None
      | Some (l2_id, l2_score, l2_text, l2_source) \<Rightarrow>
          if l2_score \<ge> MIN_SCORE
          then Some (set_match (update_chain result (get_parent_chain l2_id 2 g))
                       2 l2_score l2_source l2_text)
          else None)"

text \<open>The bottom-up branch: level 3 globally, then level 2 under it.\<close>

definition bottom_up :: "groups \<Rightarrow> texts \<Rightarrow> match_result \<Rightarrow> match_result option" where
  "bottom_up g texts result =
     (case find_best_match_in_level texts (groups_get g 3) None of
        None \<Rightarrow> last_resort g texts result
      | Some (l3_id, l3_score, l3_text, l3_source) \<Rightarrow>
          if l3_score \<ge> MIN_SCORE
          then (case find_best_match_in_level texts (groups_get g 2) (Some l3_id) of
                  None \<Rightarrow>
                    Some (set_match (update_chain result (get_parent_chain l3_id 3 g))
                            3 l3_score l3_source l3_text)
                | Some (l2_id, l2_score, l2_text, l2_source) \<Rightarrow>
                    if l2_score \<ge> MIN_SCORE
                    then Some (set_match
                                 ((set_match (update_chain result (get_parent_chain l3_id 3 g))
                                     3 l3_score l3_source l3_text)\<lparr>locGroup2Id := Some l2_id\<rparr>)
                                 2 l2_score l2_source l2_text)
                    else Some (set_match (update_chain result (get_parent_chain l3_id 3 g))
                                 3 l3_score l3_source l3_text))
          else last_resort g texts result)"

definition match_listing :: "listing \<Rightarrow> groups \<Rightarrow> match_result option" where
  "match_listing l g =
     (case find_best_match_in_level (extract_searchable_text l) (groups_get g 5) None of
        Some l5_match \<Rightarrow>
          Some (department_first g (extract_searchable_text l)
                  (empty_result\<lparr>externalId := Some (external_id l)\<rparr>) l5_match)
      | None \<Rightarrow>
          bottom_up g (extract_searchable_text l)
            (empty_result\<lparr>externalId := Some (external_id l)\<rparr>))"

section \<open>Strategy B: match_listing_with_texts\<close>

fun source_priority :: "source \<Rightarrow> rat" where
  "source_priority Location = 4"
| "source_priority Title = 3"
| "source_priority Details = 2"
| "source_priority Description = 1"

definition has_word_match :: "string \<Rightarrow> string \<Rightarrow> bool" where
  "has_word_match variant text = (if variant = [] then False else word_search variant text)"

definition all_variants :: "loc_info \<Rightarrow> string list" where
  "all_variants info =
     filter (\<lambda>v. v \<noteq> []) ([normalized info, no_prefix info] @ alt_names info)"

text \<open>The score and matched name of one entry in one text, before the tie-breaker.\<close>

definition variant_score :: "string \<Rightarrow> loc_info \<Rightarrow> rat \<times> string" where
  "variant_score text info =
     (if word_search (normalized info) text then (1, name info)
      else if no_prefix info \<noteq> [] \<and> word_search (no_prefix info) text
        then (95 / 100, name info @ '' (via '' @ no_prefix info @ '')'')
      else (case first_alt (alt_names info) text of
              Some alt \<Rightarrow> (9 / 10, name info @ '' ('' @ alt @ '')'')
            | None \<Rightarrow> (0, name info)))"

text \<open>One round of the inner loop over \<open>texts.items()\<close>; the state is (best, best_score).\<close>

fun fm_text_step ::
  "loc_id \<Rightarrow> loc_info \<Rightarrow> source \<times> string \<Rightarrow>
   (loc_id \<times> rat \<times> string \<times> source) option \<times> rat \<Rightarrow>
   (loc_id \<times> rat \<times> string \<times> source) option \<times> rat" where
  "fm_text_step loc_id info (src, text) (best, best_score) =
     (if text = [] then (best, best_score)
      else if \<not> list_ex (\<lambda>v. has_word_match v text) (all_variants info)
        then (best, best_score)
      else (case variant_score text info of
              (score, matched_name) \<Rightarrow>
                if score > 0
                then (if score + source_priority src * (1 / 1000) > best_score
                      then (Some (loc_id, score, matched_name, src),
                            score + source_priority src * (1 / 1000))
                      else (best, best_score))
                else (best, best_score)))"

text \<open>
  One round of the outer loop over \<open>level_data.items()\<close>. \<open>if parent_filter and ...\<close> is
  Python truthiness: a filter that is None or 0 filters nothing.
\<close>

fun fm_node_step ::
  "texts \<Rightarrow> loc_id option \<Rightarrow> loc_id \<times> loc_info \<Rightarrow>
   (loc_id \<times> rat \<times> string \<times> source) option \<times> rat \<Rightarrow>
   (loc_id \<times> rat \<times> string \<times> source) option \<times> rat" where
  "fm_node_step texts parent_filter (loc_id, info) st =
     (if (case parent_filter of
            None \<Rightarrow> False
          | Some p \<Rightarrow> p \<noteq> 0 \<and> parent_id info \<noteq> Some p)
      then st
      else fold (fm_text_step loc_id info) texts st)"

definition find_match ::
  "texts \<Rightarrow> level_data \<Rightarrow> loc_id option \<Rightarrow> (loc_id \<times> rat \<times> string \<times> source) option" where
  "find_match texts level_data parent_filter =
     fst (fold (fm_node_step texts parent_filter) level_data (None, 0))"

text \<open>
  One round of the loop \<open>for level in [2, 3, 4]\<close> of Strategy B; the state is
  (best_lower, best_lower_level), and best_lower holds (loc_id, level, score, text, src).
\<close>

fun lower_step_B ::
  "groups \<Rightarrow> texts \<Rightarrow> loc_id \<Rightarrow> nat \<Rightarrow>
   (loc_id \<times> nat \<times> rat \<times> string \<times> source) option \<times> nat \<Rightarrow>
   (loc_id \<times> nat \<times> rat \<times> string \<times> source) option \<times> nat" where
  "lower_step_B g texts l5_id level (best_lower, best_lower_level) =
     (if get_ids_under_dept g level l5_id = [] then (best_lower, best_lower_level)
      else (case find_match texts
                   (filter (\<lambda>(k, v). k \<in> set (get_ids_under_dept g level l5_id))
                      (groups_get g level)) None of
              None \<Rightarrow> (best_lower, best_lower_level)
            | Some (loc_id, score, text, src) \<Rightarrow>
                if score \<ge> MIN_SCORE \<and> level < best_lower_level
                then (Some (loc_id, level, score, text, src), level)
                else (best_lower, best_lower_level)))"

text \<open>Step 1: level 3 globally, then level 2 under the municipality found.\<close>

definition municipality_first ::
  "groups \<Rightarrow> texts \<Rightarrow> loc_id \<times> rat \<times> string \<times> source \<Rightarrow> match_result" where
  "municipality_first g texts l3_match =
     (case l3_match of
        (l3_id, l3_score, l3_text, l3_source) \<Rightarrow>
          (case find_match texts (groups_get g 2) (Some l3_id) of
             None \<Rightarrow>
               set_match (update_chain empty_result (get_parent_chain_local g l3_id 3))
                 3 l3_score l3_source l3_text
           | Some (l2_id, l2_score, l2_text, l2_source) \<Rightarrow>
               if l2_score \<ge> MIN_SCORE
               then set_match
                      ((set_match (update_chain empty_result (get_parent_chain_local g l3_id 3))
                          3 l3_score l3_source l3_text)\<lparr>locGroup2Id := Some l2_id\<rparr>)
                      2 l2_score l2_source l2_text
               else set_match (update_chain empty_result (get_parent_chain_local g l3_id 3))
                      3 l3_score l3_source l3_text))"

text \<open>Step 2: the department found, then the levels under it.\<close>

definition department_B ::
  "groups \<Rightarrow> texts \<Rightarrow> loc_id \<times> rat \<times> string \<times> source \<Rightarrow> match_result" where
  "department_B g texts l5_match =
     (case l5_match of
        (l5_id, l5_score, l5_text, l5_source) \<Rightarrow>
          (case fst (fold (lower_step_B g texts l5_id) [2, 3, 4] (None, 5)) of
             None \<Rightarrow>
               set_match (empty_result\<lparr>locGroup5Id := Some l5_id\<rparr>) 5 l5_score l5_source l5_text
           | Some (loc_id, level, score, text, src) \<Rightarrow>
               set_match
                 (update_chain
                    (set_match (empty_result\<lparr>locGroup5Id := Some l5_id\<rparr>)
                       5 l5_score l5_source l5_text)
                    (get_parent_chain_local g loc_id level))
                 level score src text))"

text \<open>Steps 2 and 3, reached when step 1 did not return.\<close>

definition after_municipality :: "groups \<Rightarrow> texts \<Rightarrow> match_result" where
  "after_municipality g texts =
     (case find_match texts (groups_get g 5) None of
        Some l5_match \<Rightarrow> department_B g texts l5_match
      | None \<Rightarrow>
          (case find_match texts (groups_get g 2) None of
             None \<Rightarrow> empty_result
           | Some (l2_id, l2_score, l2_text, l2_source) \<Rightarrow>
               if l2_score \<ge> MIN_SCORE
               then set_match (update_chain empty_result (get_parent_chain_local g l2_id 2))
                      2 l2_score l2_source l2_text
               else empty_result))"

definition match_listing_with_texts :: "texts \<Rightarrow> groups \<Rightarrow> match_result" where
  "match_listing_with_texts texts g =
     (case find_match texts (groups_get g 3) None of
        None \<Rightarrow> after_municipality g texts
      | Some (l3_id, l3_score, l3_text, l3_source) \<Rightarrow>
          if l3_score \<ge> MIN_SCORE
          then municipality_first g texts (l3_id, l3_score, l3_text, l3_source)
          else after_municipality g texts)"


section \<open>Example data\<close>

text \<open>
  The hierarchy of the end-to-end scenario: department "La Libertad" (D1), municipality
  "Antiguo Cuscatl\'an" (M1, parent D1) and colonia "San Francisco" (C1, parent M1, with
  the alternate name "san francisco plaza"). No level 4 is loaded.
\<close>

definition D1 :: loc_id where "D1 = 1"

definition M1 :: loc_id where "M1 = 2"

definition C1 :: loc_id where "C1 = 3"

definition la_libertad :: loc_info where
  "la_libertad =
     \<lparr> name = ''La Libertad'', normalized = ''la libertad'', no_prefix = ''libertad'',
       alt_names = [], parent_id = None \<rparr>"

definition antiguo_cuscatlan :: "loc_id \<Rightarrow> loc_info" where
  "antiguo_cuscatlan parent =
     \<lparr> name = ''Antiguo Cuscatl'' @ [CHR 0xE1] @ ''n'', normalized = ''antiguo cuscatlan'',
       no_prefix = ''antiguo cuscatlan'', alt_names = [], parent_id = Some parent \<rparr>"

definition san_francisco :: "loc_id \<Rightarrow> loc_info" where
  "san_francisco parent =
     \<lparr> name = ''San Francisco'', normalized = ''san francisco'',
       no_prefix = ''san francisco'', alt_names = [''san francisco plaza''],
       parent_id = Some parent \<rparr>"

definition scenario_groups :: groups where
  "scenario_groups =
     [5 \<mapsto> [(D1, la_libertad)], 3 \<mapsto> [(M1, antiguo_cuscatlan D1)],
      2 \<mapsto> [(C1, san_francisco M1)]]"

definition scenario_texts :: texts where
  "scenario_texts =
     [(Title, normalize_text (''Casa en San Francisco, Antiguo Cuscatl'' @ [CHR 0xE1] @ ''n'')),
      (Location, []), (Details, []), (Description, [])]"

text \<open>The texts of a listing that only has a title.\<close>

definition title_only :: "string \<Rightarrow> texts" where
  "title_only t = [(Title, normalize_text t), (Location, []), (Details, []), (Description, [])]"

text \<open>A listing whose only mention of a place is "La Libertad" in its details.\<close>

definition details_listing :: listing where
  "details_listing =
     \<lparr> external_id = 10, listing_title = ''Casa en venta'', listing_location = Map.empty,
       listing_details = ''La Libertad'', listing_description = [] \<rparr>"

text \<open>A listing that mentions no place at all.\<close>

definition plain_listing :: listing where
  "plain_listing =
     \<lparr> external_id = 11, listing_title = ''Casa en venta'', listing_location = Map.empty,
       listing_details = [], listing_description = [] \<rparr>"

text \<open>A listing with the department in its location dict.\<close>

definition location_listing :: listing where
  "location_listing =
     \<lparr> external_id = 12, listing_title = ''Casa en venta'',
       listing_location = [''departamento'' \<mapsto> ''La Libertad''],
       listing_details = [], listing_description = [] \<rparr>"

text \<open>A row without a name whose details hold a historic name, as the loader indexes it.\<close>

definition nameless_row :: loc_row where
  "nameless_row =
     \<lparr> loc_name = [], loc_name_search = [], row_details = ''Nueva San Salvador'',
       parent_loc_group = None \<rparr>"

text \<open>The department "Cuscatl\'an", a municipality of it, and two regions.\<close>

definition cuscatlan :: loc_info where
  "cuscatlan =
     \<lparr> name = ''Cuscatl'' @ [CHR 0xE1] @ ''n'', normalized = ''cuscatlan'',
       no_prefix = ''cuscatlan'', alt_names = [], parent_id = None \<rparr>"

definition cojutepeque :: "loc_id \<Rightarrow> loc_info" where
  "cojutepeque parent =
     \<lparr> name = ''Cojutepeque'', normalized = ''cojutepeque'', no_prefix = ''cojutepeque'',
       alt_names = [], parent_id = Some parent \<rparr>"

definition libertad_este :: "loc_id \<Rightarrow> loc_info" where
  "libertad_este parent =
     \<lparr> name = ''La Libertad Este'', normalized = ''la libertad este'',
       no_prefix = ''libertad este'', alt_names = [], parent_id = Some parent \<rparr>"

definition cuscatlan_sur :: "loc_id \<Rightarrow> loc_info" where
  "cuscatlan_sur parent =
     \<lparr> name = ''Cuscatlan Sur'', normalized = ''cuscatlan sur'',
       no_prefix = ''cuscatlan sur'', alt_names = [], parent_id = Some parent \<rparr>"

text \<open>
  A well-formed hierarchy with both departments: La Libertad (1) over the region 10 over
  Antiguo Cuscatl\'an (20), and Cuscatl\'an (2) over the region 11 over Cojutepeque (21).
\<close>

definition two_departments :: groups where
  "two_departments =
     [5 \<mapsto> [(1, la_libertad), (2, cuscatlan)],
      4 \<mapsto> [(10, libertad_este 1), (11, cuscatlan_sur 2)],
      3 \<mapsto> [(20, antiguo_cuscatlan 10), (21, cojutepeque 11)]]"

text \<open>The same index when the municipality Antiguo Cuscatl\'an is not loaded.\<close>

definition without_municipality :: groups where
  "without_municipality =
     [5 \<mapsto> [(1, la_libertad), (2, cuscatlan)],
      4 \<mapsto> [(10, libertad_este 1), (11, cuscatlan_sur 2)],
      3 \<mapsto> [(21, cojutepeque 11)]]"

text \<open>A well-formed hierarchy whose department has the id 0.\<close>

definition zero_department :: groups where
  "zero_department =
     [5 \<mapsto> [(0, la_libertad)], 4 \<mapsto> [(1, libertad_este 0)]]"




text \<open>A listing with the title of the end-to-end scenario.\<close>

definition title_listing :: listing where
  "title_listing =
     \<lparr> external_id = 13,
       listing_title = ''Casa en San Francisco, Antiguo Cuscatl'' @ [CHR 0xE1] @ ''n'',
       listing_location = Map.empty, listing_details = [], listing_description = [] \<rparr>"

section \<open>Predicates and invariants used in the statements\<close>

text \<open>What the state of the loop of find_match_in_level holds.\<close>

definition fmil_inv ::
  "string \<Rightarrow> source \<Rightarrow> level_data \<Rightarrow> (loc_id \<times> rat \<times> string) option \<times> rat \<Rightarrow> bool" where
  "fmil_inv t src entries st =
     (case st of
        (None, best_score) \<Rightarrow> best_score = 0
      | (Some (i, score, m), best_score) \<Rightarrow>
          best_score = score \<and>
          (\<exists>info. (i, info) \<in> set entries \<and> normalized info \<noteq> []
             \<and> name_score t info = (fst (name_score t info), m)
             \<and> fst (name_score t info) \<in> {1, 95 / 100, 9 / 10}
             \<and> score = fst (name_score t info) * source_weight src))"

text \<open>What the state of the loop of find_best_match_in_level holds.\<close>

definition fbmil_inv ::
  "texts \<Rightarrow> level_data \<Rightarrow> loc_id option \<Rightarrow>
   (loc_id \<times> rat \<times> string \<times> source) option \<times> rat \<Rightarrow> bool" where
  "fbmil_inv txs entries pf st =
     (case st of
        (None, best_score) \<Rightarrow> best_score = 0
      | (Some (i, score, m, src), best_score) \<Rightarrow>
          best_score = score \<and>
          (\<exists>info. (i, info) \<in> set entries \<and> normalized info \<noteq> []
             \<and> (\<forall>p. pf = Some p \<longrightarrow> parent_id info = Some p)
             \<and> fst (name_score (texts_get txs src) info) \<in> {1, 95 / 100, 9 / 10}
             \<and> score = fst (name_score (texts_get txs src) info) * source_weight src
                        + (if src = Location then 1 / 100 else 0)))"

text \<open>
  The base score an entry gets from one text in find_match: 0 when the text is empty or no
  variant of the entry is found in it as a word.
\<close>

definition cand_score :: "string \<Rightarrow> loc_info \<Rightarrow> rat" where
  "cand_score t info =
     (if t = [] \<or> \<not> list_ex (\<lambda>v. has_word_match v t) (all_variants info) then 0
      else fst (variant_score t info))"

text \<open>The entry passes the parent filter of find_match.\<close>

definition passes_filter :: "loc_id option \<Rightarrow> loc_info \<Rightarrow> bool" where
  "passes_filter pf info =
     (case pf of None \<Rightarrow> True | Some p \<Rightarrow> p = 0 \<or> parent_id info = Some p)"

text \<open>
  The state of the loops of find_match after the candidates in \<open>S\<close> (entry and text pairs)
  have been seen.
\<close>

definition fm_inv ::
  "(loc_id \<times> loc_info \<times> source \<times> string) set \<Rightarrow>
   (loc_id \<times> rat \<times> string \<times> source) option \<times> rat \<Rightarrow> bool" where
  "fm_inv S st =
     (case st of
        (None, best_score) \<Rightarrow>
           best_score = 0 \<and> (\<forall>(j, info, src, t) \<in> S. cand_score t info = 0)
      | (Some (i, score, m, src), best_score) \<Rightarrow>
           best_score = score + source_priority src * (1 / 1000)
           \<and> (\<exists>info t. (i, info, src, t) \<in> S \<and> cand_score t info = score \<and> 0 < score)
           \<and> (\<forall>(j, info', src', t') \<in> S.
                 0 < cand_score t' info' \<longrightarrow>
                 cand_score t' info' + source_priority src' * (1 / 1000) \<le> best_score))"

text \<open>The candidates one entry contributes: one per text, when it passes the filter.\<close>

definition entry_cands ::
  "texts \<Rightarrow> loc_id option \<Rightarrow> loc_id \<times> loc_info \<Rightarrow> (loc_id \<times> loc_info \<times> source \<times> string) set" where
  "entry_cands txs pf e =
     (if passes_filter pf (snd e) then (\<lambda>(src, t). (fst e, snd e, src, t)) ` set txs else {})"

text \<open>The chain field of a level.\<close>

definition get_level :: "nat \<Rightarrow> 'a chain_scheme \<Rightarrow> loc_id option" where
  "get_level k c =
     (if k = 2 then locGroup2Id c else if k = 3 then locGroup3Id c
      else if k = 4 then locGroup4Id c else if k = 5 then locGroup5Id c else None)"

text \<open>
  A hierarchy is well formed when every entry of the levels 2 to 4 has a parent id that is
  the id of an entry one level higher.
\<close>

definition well_formed :: "groups \<Rightarrow> bool" where
  "well_formed g =
     (\<forall>l \<in> {2, 3, 4}. \<forall>e \<in> set (groups_get g l).
        case parent_id (snd e) of
          None \<Rightarrow> False
        | Some p \<Rightarrow> p \<in> fst ` set (groups_get g (l + 1)))"

text \<open>No parent id is 0, the id that the walk takes for a missing parent.\<close>

definition nonzero_parents :: "groups \<Rightarrow> bool" where
  "nonzero_parents g =
     (\<forall>l \<in> {2, 3, 4}. \<forall>e \<in> set (groups_get g l). parent_id (snd e) \<noteq> Some 0)"

text \<open>A result that names a place: some chain field, the level, the score and the source.\<close>

definition resolved :: "match_result \<Rightarrow> bool" where
  "resolved r =
     ((locGroup2Id r \<noteq> None \<or> locGroup3Id r \<noteq> None \<or> locGroup4Id r \<noteq> None
        \<or> locGroup5Id r \<noteq> None)
      \<and> matchLevel r \<noteq> None \<and> matchScore r \<noteq> None \<and> matchSource r \<noteq> None)"

text \<open>A level lookup of Strategy A found a match that reaches the minimum score.\<close>

definition accepted :: "(loc_id \<times> rat \<times> string \<times> source) option \<Rightarrow> bool" where
  "accepted x = (case x of None \<Rightarrow> False | Some (i, s, t, src) \<Rightarrow> MIN_SCORE \<le> s)"

section \<open>Properties of the normaliser\<close>


lemma first_prefix_None:
  "first_prefix ps s = None \<Longrightarrow> \<forall>p \<in> set ps. \<not> prefix p s"
  by (induction ps) (auto split: if_splits)

lemma prefixes_nonempty: "p \<in> set prefixes \<Longrightarrow> p \<noteq> []"
proof -
  have "list_all (\<lambda>p. p \<noteq> []) prefixes"
    by (simp add: prefixes_def)
  then show "p \<in> set prefixes \<Longrightarrow> p \<noteq> []"
    unfolding list_all_iff by blast
qed


























section \<open>Word-boundary search: what a match is\<close>

lemma last_opt_append: "last_opt prev (xs @ ys) = last_opt (last_opt prev xs) ys"
  by (induction xs arbitrary: prev) auto

lemma last_opt_last: "xs \<noteq> [] \<Longrightarrow> last_opt prev xs = Some (last xs)"
  by (induction xs arbitrary: prev) auto

lemma head_opt_hd: "xs \<noteq> [] \<Longrightarrow> head_opt xs = Some (hd xs)"
  by (cases xs) auto

lemma match_here_iff:
  "match_here prev pat rest \<longleftrightarrow>
     (\<exists>post. rest = pat @ post \<and> word_boundary prev (head_opt (pat @ post))
        \<and> word_boundary (last_opt prev pat) (head_opt post))"
  by (auto simp: match_here_def prefix_def)

lemma search_from_iff:
  "search_from prev pat text \<longleftrightarrow>
     (\<exists>pre post. text = pre @ pat @ post
        \<and> word_boundary (last_opt prev pre) (head_opt (pat @ post))
        \<and> word_boundary (last_opt prev (pre @ pat)) (head_opt post))"
proof (induction "text" arbitrary: prev)
  case Nil
  show ?case by (auto simp: match_here_iff)
next
  case (Cons c cs)
  have "search_from prev pat (c # cs) \<longleftrightarrow>
          match_here prev pat (c # cs) \<or> search_from (Some c) pat cs" by simp
  also have "\<dots> \<longleftrightarrow>
      (\<exists>post. c # cs = [] @ pat @ post
          \<and> word_boundary (last_opt prev []) (head_opt (pat @ post))
          \<and> word_boundary (last_opt prev ([] @ pat)) (head_opt post))
      \<or> (\<exists>pre post. c # cs = (c # pre) @ pat @ post
          \<and> word_boundary (last_opt prev (c # pre)) (head_opt (pat @ post))
          \<and> word_boundary (last_opt prev ((c # pre) @ pat)) (head_opt post))"
    by (simp add: match_here_iff Cons.IH)
  also have "\<dots> \<longleftrightarrow>
      (\<exists>pre post. c # cs = pre @ pat @ post
          \<and> word_boundary (last_opt prev pre) (head_opt (pat @ post))
          \<and> word_boundary (last_opt prev (pre @ pat)) (head_opt post))"
    (is "?A \<or> ?B \<longleftrightarrow> ?C")
  proof
    assume "?A \<or> ?B"
    then show ?C by blast
  next
    assume ?C
    then obtain pre post where h: "c # cs = pre @ pat @ post"
        "word_boundary (last_opt prev pre) (head_opt (pat @ post))"
        "word_boundary (last_opt prev (pre @ pat)) (head_opt post)" by blast
    show "?A \<or> ?B"
    proof (cases pre)
      case Nil
      with h show ?thesis by auto
    next
      case (Cons d pre')
      with h have "d = c" by simp
      with h Cons show ?thesis by blast
    qed
  qed
  finally show ?case .
qed

lemma word_search_iff:
  assumes "pat \<noteq> []" "is_word_char (hd pat)" "is_word_char (last pat)"
  shows "word_search pat text \<longleftrightarrow>
     (\<exists>pre post. text = pre @ pat @ post
        \<and> (pre = [] \<or> \<not> is_word_char (last pre))
        \<and> (post = [] \<or> \<not> is_word_char (hd post)))"
proof -
  have l: "word_boundary (last_opt None pre) (head_opt (pat @ post))
        \<longleftrightarrow> (pre = [] \<or> \<not> is_word_char (last pre))" for pre post
    using assms
    by (cases "pre = []")
       (auto simp: word_boundary_def is_word_opt_def last_opt_last head_opt_hd)
  have r: "word_boundary (last_opt None (pre @ pat)) (head_opt post)
        \<longleftrightarrow> (post = [] \<or> \<not> is_word_char (hd post))" for pre post
    using assms
    by (cases "post = []")
       (auto simp: word_boundary_def is_word_opt_def last_opt_last head_opt_hd)
  show ?thesis
    unfolding word_search_def search_from_iff l r ..
qed



section \<open>Strategy A: the scores of the level lookup\<close>

lemma name_score_values:
  "fst (name_score t info) \<in> {0, 1, 95 / 100, 9 / 10}"
  by (simp add: name_score_def split: option.splits)

lemma fmil_step_inv:
  assumes "fmil_inv t src entries st" and "e \<in> set entries"
  shows "fmil_inv t src entries (fmil_step t src e st)"
proof -
  obtain i info where e: "e = (i, info)" by (cases e)
  obtain best bs where st: "st = (best, bs)" by (cases st)
  obtain sc m where ns: "name_score t info = (sc, m)" by (cases "name_score t info")
  have v: "sc \<in> {0, 1, 95 / 100, 9 / 10}"
    using name_score_values[of t info] ns by simp
  show ?thesis
  proof (cases "normalized info \<noteq> [] \<and> 0 < sc \<and> bs < sc * source_weight src
                 \<and> (is_substring (normalized info) t \<or> has_alt (alt_names info) t)")
    case True
    with v have "sc \<in> {1, 95 / 100, 9 / 10}" by auto
    with True assms(2) e ns show ?thesis
      by (auto simp: st fmil_inv_def)
  next
    case False
    then have "fmil_step t src e st = st"
      by (auto simp: e st ns)
    with assms(1) show ?thesis by simp
  qed
qed

lemma fmil_fold_inv:
  "fmil_inv t src entries st \<Longrightarrow> set xs \<subseteq> set entries \<Longrightarrow>
     fmil_inv t src entries (fold (fmil_step t src) xs st)"
  by (induction xs arbitrary: st) (auto simp: fmil_step_inv)

lemma find_match_in_level_Some:
  assumes "find_match_in_level t entries src = Some (i, score, m)"
  shows "\<exists>info. (i, info) \<in> set entries \<and> normalized info \<noteq> []
           \<and> fst (name_score t info) \<in> {1, 95 / 100, 9 / 10}
           \<and> score = fst (name_score t info) * source_weight src"
proof -
  have "fmil_inv t src entries (fold (fmil_step t src) entries (None, 0))"
    by (rule fmil_fold_inv) (simp_all add: fmil_inv_def)
  moreover obtain b bs where f: "fold (fmil_step t src) entries (None, 0) = (b, bs)"
    by (cases "fold (fmil_step t src) entries (None, 0)")
  moreover have "b = Some (i, score, m)"
    using assms f by (auto simp: find_match_in_level_def split: if_splits)
  ultimately show ?thesis by (auto simp: fmil_inv_def)
qed

lemma fbmil_step_inv:
  assumes "fbmil_inv txs entries pf st"
  shows "fbmil_inv txs entries pf (fbmil_step txs entries pf src st)"
proof -
  obtain best bs where st: "st = (best, bs)" by (cases st)
  define pool where "pool = (case pf of
                      Some p \<Rightarrow> filter (\<lambda>(k, v). parent_id v = Some p) entries
                    | None \<Rightarrow> entries)"
  have pool: "(i, info) \<in> set pool \<Longrightarrow>
      (i, info) \<in> set entries \<and> (\<forall>p. pf = Some p \<longrightarrow> parent_id info = Some p)" for i info
    by (auto simp: pool_def split: option.splits)
  show ?thesis
  proof (cases "find_match_in_level (texts_get txs src) pool src")
    case None
    then have "fbmil_step txs entries pf src st = st"
      by (simp add: st pool_def)
    with assms show ?thesis by simp
  next
    case (Some r)
    obtain i score m where r: "r = (i, score, m)" by (cases r)
    from find_match_in_level_Some[OF Some[unfolded r]] pool
    obtain info where info: "(i, info) \<in> set entries" "normalized info \<noteq> []"
        "\<forall>p. pf = Some p \<longrightarrow> parent_id info = Some p"
        "fst (name_score (texts_get txs src) info) \<in> {1, 95 / 100, 9 / 10}"
        "score = fst (name_score (texts_get txs src) info) * source_weight src"
      by blast
    show ?thesis
    proof (cases "texts_get txs src \<noteq> [] \<and>
                   bs < (if src = Location then score + 1 / 100 else score)")
      case True
      then have "fbmil_step txs entries pf src st =
          (Some (i, (if src = Location then score + 1 / 100 else score), m, src),
           (if src = Location then score + 1 / 100 else score))"
        using Some r by (simp add: st pool_def)
      with info show ?thesis
        by (auto simp: fbmil_inv_def)
    next
      case False
      then have "fbmil_step txs entries pf src st = st"
        using Some r by (auto simp: st pool_def)
      with assms show ?thesis by simp
    qed
  qed
qed

lemma find_best_match_in_level_Some:
  assumes "find_best_match_in_level txs entries pf = Some (i, score, m, src)"
  shows "\<exists>info. (i, info) \<in> set entries \<and> normalized info \<noteq> []
           \<and> (\<forall>p. pf = Some p \<longrightarrow> parent_id info = Some p)
           \<and> fst (name_score (texts_get txs src) info) \<in> {1, 95 / 100, 9 / 10}
           \<and> score = fst (name_score (texts_get txs src) info) * source_weight src
                      + (if src = Location then 1 / 100 else 0)"
proof -
  let ?st = "fold (fbmil_step txs entries pf) [Location, Title, Details, Description] (None, 0)"
  have "fbmil_inv txs entries pf (None, 0)" by (simp add: fbmil_inv_def)
  then have "fbmil_inv txs entries pf ?st"
    by (simp add: fbmil_step_inv del: fbmil_step.simps)
  moreover obtain b bs where f: "?st = (b, bs)" by (cases ?st)
  moreover have "b = Some (i, score, m, src)"
    using assms f by (simp add: find_best_match_in_level_def)
  ultimately show ?thesis by (auto simp: fbmil_inv_def)
qed

section \<open>Strategy B: the candidate that find_match returns\<close>

lemma variant_score_values: "fst (variant_score t info) \<in> {0, 1, 95 / 100, 9 / 10}"
  by (simp add: variant_score_def split: option.splits)

lemma cand_score_values: "cand_score t info \<in> {0, 1, 95 / 100, 9 / 10}"
  using variant_score_values[of t info] by (simp add: cand_score_def)

lemma source_priority_values: "source_priority src \<in> {1, 2, 3, 4}"
  by (cases src) simp_all

lemma fm_text_step_eq:
  "fm_text_step i info (src, t) (best, bs) =
     (if 0 < cand_score t info \<and> bs < cand_score t info + source_priority src * (1 / 1000)
      then (Some (i, cand_score t info, snd (variant_score t info), src),
            cand_score t info + source_priority src * (1 / 1000))
      else (best, bs))"
  by (cases "variant_score t info") (auto simp: cand_score_def)

declare fm_text_step.simps [simp del]

lemma fm_text_step_inv:
  assumes "fm_inv S st"
  shows "fm_inv (insert (i, info, src, t) S) (fm_text_step i info (src, t) st)"
proof -
  obtain best bs where st: "st = (best, bs)" by (cases st)
  have p: "0 < source_priority src * (1 / 1000)"
    using source_priority_values[of src] by auto
  have v: "0 \<le> cand_score t info"
    using cand_score_values[of t info] by auto
  show ?thesis
  proof (cases "0 < cand_score t info \<and> bs < cand_score t info + source_priority src * (1 / 1000)")
    case True
    then have e: "fm_text_step i info (src, t) st =
        (Some (i, cand_score t info, snd (variant_score t info), src),
            cand_score t info + source_priority src * (1 / 1000))"
      by (simp add: st fm_text_step_eq)
    have "\<forall>(j, info', src', t') \<in> S. 0 < cand_score t' info' \<longrightarrow>
        cand_score t' info' + source_priority src' * (1 / 1000) \<le> bs"
      using assms st by (cases best) (auto simp: fm_inv_def)
    with True show ?thesis
      unfolding e fm_inv_def by fastforce
  next
    case False
    then have e: "fm_text_step i info (src, t) st = st"
      by (simp add: st fm_text_step_eq)
    show ?thesis
    proof (cases best)
      case None
      with assms st have b: "bs = 0" and z: "\<forall>(j, info, src, t) \<in> S. cand_score t info = 0"
        by (auto simp: fm_inv_def)
      from False b p v have "cand_score t info = 0" by auto
      with z b None have "fm_inv (insert (i, info, src, t) S) st"
        by (auto simp: st fm_inv_def)
      then show ?thesis by (simp only: e)
    next
      case (Some r)
      obtain i' s' m' src' where r: "r = (i', s', m', src')" by (cases r)
      from False have "0 < cand_score t info \<longrightarrow>
          cand_score t info + source_priority src * (1 / 1000) \<le> bs" by auto
      with assms have "fm_inv (insert (i, info, src, t) S) st"
        by (auto simp: st Some r fm_inv_def)
      then show ?thesis by (simp only: e)
    qed
  qed
qed

lemma fm_texts_fold_inv:
  "fm_inv S st \<Longrightarrow>
     fm_inv (S \<union> (\<lambda>(src, t). (i, info, src, t)) ` set xs) (fold (fm_text_step i info) xs st)"
proof (induction xs arbitrary: S st)
  case Nil
  then show ?case by simp
next
  case (Cons x xs)
  obtain src t where x: "x = (src, t)" by (cases x)
  from Cons.prems have "fm_inv (insert (i, info, src, t) S) (fm_text_step i info (src, t) st)"
    by (rule fm_text_step_inv)
  from Cons.IH[OF this] show ?case by (simp add: x)
qed

lemma fm_node_step_inv:
  assumes "fm_inv S st"
  shows "fm_inv (S \<union> entry_cands txs pf e) (fm_node_step txs pf e st)"
proof -
  obtain i info where e: "e = (i, info)" by (cases e)
  show ?thesis
  proof (cases "passes_filter pf info")
    case True
    then have "fm_node_step txs pf e st = fold (fm_text_step i info) txs st"
      by (auto simp: e passes_filter_def split: option.splits)
    with fm_texts_fold_inv[OF assms, where i = i and info = info and xs = txs] True
    show ?thesis
      by (simp add: entry_cands_def e)
  next
    case False
    then have "fm_node_step txs pf e st = st"
      by (auto simp: e passes_filter_def split: option.splits)
    with assms False show ?thesis by (simp add: entry_cands_def e)
  qed
qed

lemma fm_nodes_fold_inv:
  "fm_inv S st \<Longrightarrow>
     fm_inv (S \<union> (\<Union>e \<in> set xs. entry_cands txs pf e)) (fold (fm_node_step txs pf) xs st)"
proof (induction xs arbitrary: S st)
  case Nil
  then show ?case by simp
next
  case (Cons x xs)
  from Cons.prems have "fm_inv (S \<union> entry_cands txs pf x) (fm_node_step txs pf x st)"
    by (rule fm_node_step_inv)
  from Cons.IH[OF this] show ?case by (simp add: Un_assoc)
qed

lemma find_match_inv:
  "fm_inv (\<Union>e \<in> set entries. entry_cands txs pf e)
     (fold (fm_node_step txs pf) entries (None, 0))"
proof -
  have "fm_inv {} (None, 0)" by (simp add: fm_inv_def)
  from fm_nodes_fold_inv[OF this, where xs = entries and txs = txs and pf = pf]
  show ?thesis by simp
qed


section \<open>The parent chain: which levels it fills\<close>

lemma get_level_set_level:
  "get_level k (set_level l i c) =
     (if k = l \<and> 2 \<le> l \<and> l \<le> 5 then Some i else get_level k c)"
  by (simp add: get_level_def set_level_def)

lemma chain_loop_keeps_lower:
  "k < l \<Longrightarrow> get_level k (chain_loop g i l r) = get_level k r"
proof (induction g i l r rule: chain_loop.induct)
  case (1 g current_id current_level result)
  show ?case
    using "1.prems" "1.IH"
    by (subst chain_loop.simps)
       (auto simp: get_level_set_level split: option.splits)
qed

lemma chain_loop_own_level:
  assumes "2 \<le> l" and "l \<le> 5"
  shows "get_level l (chain_loop g i l r) = Some i"
  using assms
  by (subst chain_loop.simps)
     (auto simp: get_level_set_level chain_loop_keeps_lower split: option.splits)

lemma well_formedD:
  "well_formed g \<Longrightarrow> l \<in> {2, 3, 4} \<Longrightarrow> (i, info) \<in> set (groups_get g l) \<Longrightarrow>
     \<exists>p. parent_id info = Some p \<and> p \<in> fst ` set (groups_get g (l + 1))"
  unfolding well_formed_def
  apply (drule (1) bspec)
  apply (drule (1) bspec)
  apply (simp split: option.splits)
  done

lemma nonzero_parentsD:
  "nonzero_parents g \<Longrightarrow> l \<in> {2, 3, 4} \<Longrightarrow> (i, info) \<in> set (groups_get g l) \<Longrightarrow>
     parent_id info \<noteq> Some 0"
  unfolding nonzero_parents_def
  apply (drule (1) bspec)
  apply (drule (1) bspec)
  apply simp
  done

lemma chain_loop_complete:
  "well_formed g \<Longrightarrow> nonzero_parents g \<Longrightarrow> 2 \<le> l \<Longrightarrow> l \<le> 5 \<Longrightarrow>
     i \<in> fst ` set (groups_get g l) \<Longrightarrow> l \<le> k \<Longrightarrow> k \<le> 5 \<Longrightarrow>
     get_level k (chain_loop g i l r) \<noteq> None"
proof (induction g i l r rule: chain_loop.induct)
  case (1 g current_id current_level result)
  note wf = "1.prems"(1) and nz = "1.prems"(2)
  show ?case
  proof (cases "current_level = 5")
    case True
    with "1.prems" show ?thesis
      by (subst chain_loop.simps) (simp add: get_level_set_level)
  next
    case False
    with "1.prems" have lv: "current_level \<in> {2, 3, 4}" by auto
    from "1.prems"(5) obtain info where m: "map_of (groups_get g current_level) current_id = Some info"
      by (metis (no_types, opaque_lifting) domD dom_map_of_conv_image_fst)
    then have mem: "(current_id, info) \<in> set (groups_get g current_level)"
      by (rule map_of_SomeD)
    have "\<exists>p. parent_id info = Some p
        \<and> p \<in> fst ` set (groups_get g (current_level + 1))"
      using wf lv mem by (rule well_formedD)
    then obtain p where p1: "parent_id info = Some p"
        and p3: "p \<in> fst ` set (groups_get g (current_level + 1))"
      by (elim exE conjE)
    have "parent_id info \<noteq> Some 0"
      using nz lv mem by (rule nonzero_parentsD)
    with p1 have p2: "p \<noteq> 0" by simp
    note p = p1 p2 p3
    show ?thesis
    proof (cases "k = current_level")
      case True
      with "1.prems" show ?thesis
        using chain_loop_own_level[of current_level g current_id result] by simp
    next
      case False
      with "1.prems" have "current_level + 1 \<le> k" by simp
      with "1.IH"[OF _ _ m p(1) p(2) wf nz] lv p "1.prems" \<open>current_level \<noteq> 5\<close>
      have "get_level k (chain_loop g p (current_level + 1)
               (set_level current_level current_id result)) \<noteq> None"
        by auto
      with m p \<open>current_level \<noteq> 5\<close> lv show ?thesis
        by (subst chain_loop.simps) auto
    qed
  qed
qed

lemma get_parent_chain_complete:
  assumes "well_formed g" and "nonzero_parents g"
      and "l \<in> {2, 3, 4, 5}" and "i \<in> fst ` set (groups_get g l)"
  shows "get_level l (get_parent_chain i l g) = Some i
         \<and> (\<forall>k. l \<le> k \<and> k \<le> 5 \<longrightarrow> get_level k (get_parent_chain i l g) \<noteq> None)
         \<and> (\<forall>k. k < l \<longrightarrow> get_level k (get_parent_chain i l g) = None)
         \<and> get_parent_chain_local g i l = get_parent_chain i l g"
proof -
  from assms(3) have l: "2 \<le> l" "l \<le> 5" by auto
  have e: "get_level k empty_chain = None" for k
    by (simp add: get_level_def empty_chain_def)
  show ?thesis
    using chain_loop_own_level[OF l] chain_loop_complete[OF assms(1,2) l assms(4)]
    by (simp add: get_parent_chain_def get_parent_chain_local_def chain_loop_keeps_lower e)
qed

text \<open>The lemma at work on the hierarchy with two departments.\<close>

lemma get_parent_chain_complete_example:
  "well_formed two_departments \<and> nonzero_parents two_departments
   \<and> 20 \<in> fst ` set (groups_get two_departments 3)
   \<and> (\<forall>k. 3 \<le> k \<and> k \<le> 5 \<longrightarrow> get_level k (get_parent_chain 20 3 two_departments) \<noteq> None)
   \<and> get_parent_chain 20 3 two_departments =
       \<lparr> locGroup2Id = None, locGroup3Id = Some 20, locGroup4Id = Some 10, locGroup5Id = Some 1 \<rparr>"
proof -
  have wf: "well_formed two_departments" by code_simp
  have nz: "nonzero_parents two_departments" by code_simp
  have m: "20 \<in> fst ` set (groups_get two_departments 3)" by code_simp
  have e: "get_parent_chain 20 3 two_departments =
       \<lparr> locGroup2Id = None, locGroup3Id = Some 20, locGroup4Id = Some 10, locGroup5Id = Some 1 \<rparr>"
    by code_simp
  from get_parent_chain_complete[OF wf nz _ m] wf nz m e show ?thesis by simp
qed

section \<open>What the two strategies return\<close>

lemma find_match_Some_score:
  assumes "find_match txs entries pf = Some (i, s, m, src)"
  shows "s \<in> {1, 95 / 100, 9 / 10}"
proof -
  obtain best bs where f: "fold (fm_node_step txs pf) entries (None, 0) = (best, bs)"
    by (cases "fold (fm_node_step txs pf) entries (None, 0)")
  with assms have b: "best = Some (i, s, m, src)" by (simp add: find_match_def)
  from find_match_inv[where txs = txs and pf = pf and entries = entries] f b
  obtain info t where "cand_score t info = s" "0 < s"
    by (auto simp: fm_inv_def)
  with cand_score_values[of t info] show ?thesis by auto
qed

lemma find_match_Some_accepted:
  "find_match txs entries pf = Some (i, s, m, src) \<Longrightarrow> MIN_SCORE \<le> s"
  using find_match_Some_score[of txs entries pf i s m src] by (auto simp: MIN_SCORE_def)

lemma empty_result_not_resolved: "\<not> resolved empty_result"
  by (simp add: resolved_def empty_result_def)

lemma resolved_chain:
  assumes "2 \<le> l" and "l \<le> 5"
  shows "resolved (set_match (update_chain r (chain_loop g i l empty_chain)) lv sc src txt)"
proof -
  from chain_loop_own_level[OF assms, of g i empty_chain]
  have "get_level l (chain_loop g i l empty_chain) \<noteq> None" by simp
  then show ?thesis
    by (auto simp: resolved_def set_match_def update_chain_def get_level_def split: if_splits)
qed

lemma resolved_department:
  "resolved (set_match (r\<lparr>locGroup5Id := Some i\<rparr>) lv sc src txt)"
  by (simp add: resolved_def set_match_def)

text \<open>What the state of the loop over the levels 2, 3, 4 of Strategy B holds.\<close>

lemma lower_step_B_level:
  assumes "level \<in> {2, 3, 4}"
      and "\<forall>x. fst st = Some x \<longrightarrow> fst (snd x) \<in> {2, 3, 4}"
  shows "\<forall>x. fst (lower_step_B g txs d level st) = Some x \<longrightarrow> fst (snd x) \<in> {2, 3, 4}"
proof -
  obtain bl bll where st: "st = (bl, bll)" by (cases st)
  show ?thesis
    using assms by (auto simp: st split: option.splits if_splits)
qed

lemma lower_fold_B_level:
  "fst (fold (lower_step_B g txs d) [2, 3, 4] (None, 5)) = Some (i, l, sc, tx, sr) \<Longrightarrow>
     l \<in> {2, 3, 4}"
proof -
  have a: "\<forall>x. fst (None :: (loc_id \<times> nat \<times> rat \<times> string \<times> source) option, 5::nat) = Some x
             \<longrightarrow> fst (snd x) \<in> {2, 3, 4}" by simp
  have b: "\<forall>x. fst (lower_step_B g txs d 2 (None, 5)) = Some x \<longrightarrow> fst (snd x) \<in> {2, 3, 4}"
    by (rule lower_step_B_level[OF _ a]) simp
  have c: "\<forall>x. fst (lower_step_B g txs d 3 (lower_step_B g txs d 2 (None, 5))) = Some x
             \<longrightarrow> fst (snd x) \<in> {2, 3, 4}"
    by (rule lower_step_B_level[OF _ b]) simp
  have d: "\<forall>x. fst (lower_step_B g txs d 4 (lower_step_B g txs d 3 (lower_step_B g txs d 2 (None, 5))))
             = Some x \<longrightarrow> fst (snd x) \<in> {2, 3, 4}"
    by (rule lower_step_B_level[OF _ c]) simp
  assume "fst (fold (lower_step_B g txs d) [2, 3, 4] (None, 5)) = Some (i, l, sc, tx, sr)"
  with d show ?thesis by (simp del: lower_step_B.simps)
qed

lemma department_B_resolved: "resolved (department_B g txs m)"
proof -
  obtain i s t src where m: "m = (i, s, t, src)" by (cases m)
  show ?thesis
  proof (cases "fst (fold (lower_step_B g txs i) [2, 3, 4] (None, 5))")
    case None
    then show ?thesis
      by (simp add: department_B_def m resolved_department del: lower_step_B.simps)
  next
    case (Some x)
    obtain j l sc tx sr where x: "x = (j, l, sc, tx, sr)" by (cases x)
    from lower_fold_B_level[OF Some[unfolded x]] have "2 \<le> l" "l \<le> 5" by auto
    from resolved_chain[OF this] Some x show ?thesis
      by (simp add: department_B_def m get_parent_chain_local_def del: lower_step_B.simps)
  qed
qed

lemma municipality_first_resolved: "resolved (municipality_first g txs m)"
proof -
  obtain i s t src where m: "m = (i, s, t, src)" by (cases m)
  have a: "resolved (set_match (update_chain empty_result (get_parent_chain_local g i 3)) 3 s src t)"
    unfolding get_parent_chain_local_def by (rule resolved_chain) simp_all
  have b: "resolved (set_match
            ((set_match (update_chain empty_result (get_parent_chain_local g i 3)) 3 s src t)
               \<lparr>locGroup2Id := Some j\<rparr>) lv' sc' src' txt')" for j lv' sc' src' txt'
    by (simp add: resolved_def set_match_def)
  show ?thesis
    using a b by (simp add: municipality_first_def m split: option.splits)
qed

lemma after_municipality_cases:
  "after_municipality g txs = empty_result
     \<longleftrightarrow> find_match txs (groups_get g 5) None = None \<and> find_match txs (groups_get g 2) None = None"
proof (cases "find_match txs (groups_get g 5) None")
  case (Some m)
  with department_B_resolved[of g txs m] empty_result_not_resolved show ?thesis
    by (auto simp: after_municipality_def)
next
  case None
  show ?thesis
  proof (cases "find_match txs (groups_get g 2) None")
    case n2: None
    with None show ?thesis by (simp add: after_municipality_def)
  next
    case (Some m)
    obtain i s t src where m: "m = (i, s, t, src)" by (cases m)
    from find_match_Some_accepted[OF Some[unfolded m]] have acc: "MIN_SCORE \<le> s" .
    have "resolved (set_match (update_chain empty_result (get_parent_chain_local g i 2)) 2 s src t)"
      unfolding get_parent_chain_local_def by (rule resolved_chain) simp_all
    with None Some m acc empty_result_not_resolved show ?thesis
      by (auto simp: after_municipality_def)
  qed
qed

lemma after_municipality_resolved:
  "after_municipality g txs \<noteq> empty_result \<Longrightarrow> resolved (after_municipality g txs)"
proof (cases "find_match txs (groups_get g 5) None")
  case (Some m)
  with department_B_resolved[of g txs m] show ?thesis
    by (simp add: after_municipality_def)
next
  case None
  assume ne: "after_municipality g txs \<noteq> empty_result"
  show ?thesis
  proof (cases "find_match txs (groups_get g 2) None")
    case n2: None
    with None ne show ?thesis by (simp add: after_municipality_def)
  next
    case (Some m)
    obtain i s t src where m: "m = (i, s, t, src)" by (cases m)
    have "resolved (set_match (update_chain empty_result (get_parent_chain_local g i 2)) 2 s src t)"
      unfolding get_parent_chain_local_def by (rule resolved_chain) simp_all
    with None Some m ne show ?thesis
      by (auto simp: after_municipality_def split: if_splits)
  qed
qed

lemma strategy_B_empty_iff:
  "match_listing_with_texts txs g = empty_result
     \<longleftrightarrow> find_match txs (groups_get g 3) None = None
         \<and> find_match txs (groups_get g 5) None = None
         \<and> find_match txs (groups_get g 2) None = None"
proof (cases "find_match txs (groups_get g 3) None")
  case None
  then show ?thesis
    by (simp add: match_listing_with_texts_def after_municipality_cases)
next
  case (Some m)
  obtain i s t src where m: "m = (i, s, t, src)" by (cases m)
  from find_match_Some_accepted[OF Some[unfolded m]] have acc: "MIN_SCORE \<le> s" .
  with Some m municipality_first_resolved[of g txs m] empty_result_not_resolved
  show ?thesis
    by (auto simp: match_listing_with_texts_def)
qed

lemma strategy_B_resolved:
  "match_listing_with_texts txs g \<noteq> empty_result \<Longrightarrow> resolved (match_listing_with_texts txs g)"
proof (cases "find_match txs (groups_get g 3) None")
  case None
  assume "match_listing_with_texts txs g \<noteq> empty_result"
  with None show ?thesis
    by (simp add: match_listing_with_texts_def after_municipality_resolved)
next
  case (Some m)
  assume ne: "match_listing_with_texts txs g \<noteq> empty_result"
  obtain i s t src where m: "m = (i, s, t, src)" by (cases m)
  from find_match_Some_accepted[OF Some[unfolded m]] have acc: "MIN_SCORE \<le> s" .
  with Some m municipality_first_resolved[of g txs m]
  show ?thesis
    by (simp add: match_listing_with_texts_def)
qed
lemma lower_step_level:
  assumes "level \<in> {2, 3, 4}"
      and "fst st \<noteq> None \<longrightarrow> fst (snd st) \<in> {2, 3, 4}"
  shows "fst (lower_step g txs d level st) \<noteq> None
           \<longrightarrow> fst (snd (lower_step g txs d level st)) \<in> {2, 3, 4}"
proof -
  obtain bl bll bls where st: "st = (bl, bll, bls)" by (cases st)
  show ?thesis
    using assms by (auto simp: st split: option.splits if_splits)
qed

lemma lower_fold_level:
  "fold (lower_step g txs d) [2, 3, 4] (None, 5, 0) = (Some x, l, s) \<Longrightarrow> l \<in> {2, 3, 4}"
proof -
  let ?s0 = "(None, 5, 0) :: (loc_id \<times> rat \<times> string \<times> source) option \<times> nat \<times> rat"
  have a: "fst ?s0 \<noteq> None \<longrightarrow> fst (snd ?s0) \<in> {2, 3, 4}" by simp
  have b: "fst (lower_step g txs d 2 ?s0) \<noteq> None
             \<longrightarrow> fst (snd (lower_step g txs d 2 ?s0)) \<in> {2, 3, 4}"
    by (rule lower_step_level[OF _ a]) simp
  have c: "fst (lower_step g txs d 3 (lower_step g txs d 2 ?s0)) \<noteq> None
             \<longrightarrow> fst (snd (lower_step g txs d 3 (lower_step g txs d 2 ?s0))) \<in> {2, 3, 4}"
    by (rule lower_step_level[OF _ b]) simp
  have d: "fst (lower_step g txs d 4 (lower_step g txs d 3 (lower_step g txs d 2 ?s0))) \<noteq> None
             \<longrightarrow> fst (snd (lower_step g txs d 4 (lower_step g txs d 3 (lower_step g txs d 2 ?s0))))
                   \<in> {2, 3, 4}"
    by (rule lower_step_level[OF _ c]) simp
  assume "fold (lower_step g txs d) [2, 3, 4] (None, 5, 0) = (Some x, l, s)"
  then have "lower_step g txs d 4 (lower_step g txs d 3 (lower_step g txs d 2 ?s0)) = (Some x, l, s)"
    by (simp del: lower_step.simps)
  with d show ?thesis by (simp del: lower_step.simps)
qed

lemma set_match_externalId [simp]: "externalId (set_match r lv sc src t) = externalId r"
  by (simp add: set_match_def)

lemma update_chain_externalId [simp]: "externalId (update_chain r c) = externalId r"
  by (simp add: update_chain_def)

lemma department_first_resolved:
  "resolved (department_first g txs r m) \<and> externalId (department_first g txs r m) = externalId r"
proof -
  obtain i s t src where m: "m = (i, s, t, src)" by (cases m)
  obtain bl l bs where f: "fold (lower_step g txs i) [2, 3, 4] (None, 5, 0) = (bl, l, bs)"
    by (cases "fold (lower_step g txs i) [2, 3, 4] (None, 5, 0)")
  show ?thesis
  proof (cases bl)
    case None
    with f show ?thesis
      by (simp add: department_first_def m resolved_department del: lower_step.simps)
  next
    case (Some x)
    obtain j sc tx sr where x: "x = (j, sc, tx, sr)" by (cases x)
    from lower_fold_level[OF f[unfolded Some]] have "2 \<le> l" "l \<le> 5" by auto
    from resolved_chain[OF this] f Some x show ?thesis
      by (simp add: department_first_def m get_parent_chain_def del: lower_step.simps)
  qed
qed

lemma last_resort_None:
  "last_resort g txs r = None \<longleftrightarrow> \<not> accepted (find_best_match_in_level txs (groups_get g 2) None)"
  by (auto simp: last_resort_def accepted_def split: option.splits)

lemma last_resort_Some:
  assumes "last_resort g txs r = Some r'"
  shows "resolved r' \<and> externalId r' = externalId r"
proof -
  from assms obtain i s t src where
    "r' = set_match (update_chain r (get_parent_chain i 2 g)) 2 s src t"
    by (auto simp: last_resort_def split: option.splits if_splits)
  moreover have "resolved (set_match (update_chain r (get_parent_chain i 2 g)) 2 s src t)"
    unfolding get_parent_chain_def by (rule resolved_chain) simp_all
  ultimately show ?thesis by simp
qed

lemma bottom_up_None:
  "bottom_up g txs r = None \<longleftrightarrow>
     \<not> accepted (find_best_match_in_level txs (groups_get g 3) None)
     \<and> \<not> accepted (find_best_match_in_level txs (groups_get g 2) None)"
  by (auto simp: bottom_up_def last_resort_None accepted_def split: option.splits)

lemma bottom_up_Some:
  assumes "bottom_up g txs r = Some r'"
  shows "resolved r' \<and> externalId r' = externalId r"
proof (cases "accepted (find_best_match_in_level txs (groups_get g 3) None)")
  case False
  with assms have "last_resort g txs r = Some r'"
    by (auto simp: bottom_up_def accepted_def split: option.splits if_splits)
  then show ?thesis by (rule last_resort_Some)
next
  case True
  then obtain i s t src where
    m: "find_best_match_in_level txs (groups_get g 3) None = Some (i, s, t, src)" "MIN_SCORE \<le> s"
    by (auto simp: accepted_def split: option.splits)
  have a: "resolved (set_match (update_chain r (get_parent_chain i 3 g)) 3 s src t)"
    unfolding get_parent_chain_def by (rule resolved_chain) simp_all
  have b: "resolved (set_match
            ((set_match (update_chain r (get_parent_chain i 3 g)) 3 s src t)
               \<lparr>locGroup2Id := Some j\<rparr>) lv' sc' src' txt')" for j lv' sc' src' txt'
    by (simp add: resolved_def set_match_def)
  from assms m a b show ?thesis
    by (auto simp: bottom_up_def split: option.splits if_splits)
qed

lemma match_listing_None:
  "match_listing l g = None \<longleftrightarrow>
     find_best_match_in_level (extract_searchable_text l) (groups_get g 5) None = None
     \<and> \<not> accepted (find_best_match_in_level (extract_searchable_text l) (groups_get g 3) None)
     \<and> \<not> accepted (find_best_match_in_level (extract_searchable_text l) (groups_get g 2) None)"
  by (auto simp: match_listing_def bottom_up_None split: option.splits)

lemma match_listing_Some:
  assumes "match_listing l g = Some r"
  shows "resolved r \<and> externalId r = Some (external_id l)"
proof (cases "find_best_match_in_level (extract_searchable_text l) (groups_get g 5) None")
  case None
  with assms have "bottom_up g (extract_searchable_text l)
            (empty_result\<lparr>externalId := Some (external_id l)\<rparr>) = Some r"
    by (simp add: match_listing_def)
  from bottom_up_Some[OF this] show ?thesis by simp
next
  case (Some m)
  with assms have "r = department_first g (extract_searchable_text l)
                  (empty_result\<lparr>externalId := Some (external_id l)\<rparr>) m"
    by (simp add: match_listing_def)
  with department_first_resolved[of g "extract_searchable_text l"
         "empty_result\<lparr>externalId := Some (external_id l)\<rparr>" m]
  show ?thesis by simp
qed

text \<open>What the state of the loop over the levels 2, 3, 4 of Strategy A holds.\<close>

lemma lower_step_accepted:
  assumes "level \<in> {2, 3, 4}"
      and "case st of
             (None, l, s) \<Rightarrow> l = 5
           | (Some (i, sc, t, src), l, s) \<Rightarrow> l \<in> {2, 3, 4} \<and> MIN_SCORE \<le> sc \<and> s = sc"
  shows "case lower_step g txs d level st of
             (None, l, s) \<Rightarrow> l = 5
           | (Some (i, sc, t, src), l, s) \<Rightarrow> l \<in> {2, 3, 4} \<and> MIN_SCORE \<le> sc \<and> s = sc"
proof -
  obtain bl bll bls where st: "st = (bl, bll, bls)" by (cases st)
  show ?thesis
    using assms by (auto simp: st split: option.splits if_splits)
qed

lemma lower_fold_accepted:
  "fold (lower_step g txs d) [2, 3, 4] (None, 5, 0) = (Some (i, sc, t, src), l, s) \<Longrightarrow>
     l \<in> {2, 3, 4} \<and> MIN_SCORE \<le> sc"
proof -
  let ?P = "\<lambda>st :: (loc_id \<times> rat \<times> string \<times> source) option \<times> nat \<times> rat.
      case st of
        (None, l, s) \<Rightarrow> l = 5
      | (Some (i, sc, t, src), l, s) \<Rightarrow> l \<in> {2, 3, 4} \<and> MIN_SCORE \<le> sc \<and> s = sc"
  let ?s0 = "(None, 5, 0) :: (loc_id \<times> rat \<times> string \<times> source) option \<times> nat \<times> rat"
  have a: "?P ?s0" by simp
  have b: "?P (lower_step g txs d 2 ?s0)"
    by (rule lower_step_accepted[OF _ a]) simp
  have c: "?P (lower_step g txs d 3 (lower_step g txs d 2 ?s0))"
    by (rule lower_step_accepted[OF _ b]) simp
  have d: "?P (lower_step g txs d 4 (lower_step g txs d 3 (lower_step g txs d 2 ?s0)))"
    by (rule lower_step_accepted[OF _ c]) simp
  assume "fold (lower_step g txs d) [2, 3, 4] (None, 5, 0) = (Some (i, sc, t, src), l, s)"
  then have "lower_step g txs d 4 (lower_step g txs d 3 (lower_step g txs d 2 ?s0))
      = (Some (i, sc, t, src), l, s)"
    by (simp del: lower_step.simps)
  with d show ?thesis by (simp del: lower_step.simps)
qed

text \<open>
  Below level 5, every match that match_listing reports has reached the minimum score.
\<close>

lemma match_listing_lower_levels_accepted:
  assumes "match_listing l g = Some r" and "matchLevel r \<noteq> Some 5"
  shows "\<exists>s. MIN_SCORE \<le> s \<and> matchScore r = Some (round2 s)"
proof (cases "find_best_match_in_level (extract_searchable_text l) (groups_get g 5) None")
  case (Some m)
  obtain i s t src where m: "m = (i, s, t, src)" by (cases m)
  let ?txs = "extract_searchable_text l"
  obtain bl bll bls where f: "fold (lower_step g ?txs i) [2, 3, 4] (None, 5, 0) = (bl, bll, bls)"
    by (cases "fold (lower_step g ?txs i) [2, 3, 4] (None, 5, 0)")
  from assms(1) Some m have r: "r = department_first g ?txs
      (empty_result\<lparr>externalId := Some (external_id l)\<rparr>) (i, s, t, src)"
    by (simp add: match_listing_def)
  show ?thesis
  proof (cases bl)
    case None
    with r f have "matchLevel r = Some 5"
      by (simp add: department_first_def set_match_def del: lower_step.simps)
    with assms(2) show ?thesis by simp
  next
    case (Some x)
    obtain j sc tx sr where x: "x = (j, sc, tx, sr)" by (cases x)
    from lower_fold_accepted[OF f[unfolded Some x]] have "MIN_SCORE \<le> sc" by simp
    moreover from r f Some x have "matchScore r = Some (round2 sc)"
      by (simp add: department_first_def set_match_def del: lower_step.simps)
    ultimately show ?thesis by blast
  qed
next
  case None
  with assms(1) have b: "bottom_up g (extract_searchable_text l)
            (empty_result\<lparr>externalId := Some (external_id l)\<rparr>) = Some r"
    by (simp add: match_listing_def)
  then show ?thesis
    by (force simp: bottom_up_def last_resort_def set_match_def split: option.splits if_splits)
qed


section \<open>The minimum score in the two strategies\<close>

text \<open>Every result of Strategy B that is not empty carries a score of at least 0.9.\<close>

lemma lower_step_B_accepted:
  assumes "\<forall>x. fst st = Some x \<longrightarrow> MIN_SCORE \<le> fst (snd (snd x))"
  shows "\<forall>x. fst (lower_step_B g txs d level st) = Some x \<longrightarrow> MIN_SCORE \<le> fst (snd (snd x))"
proof -
  obtain bl bll where st: "st = (bl, bll)" by (cases st)
  show ?thesis
    using assms by (auto simp: st split: option.splits if_splits)
qed

lemma lower_fold_B_accepted:
  "fst (fold (lower_step_B g txs d) [2, 3, 4] (None, 5)) = Some (i, l, sc, tx, sr) \<Longrightarrow>
     MIN_SCORE \<le> sc"
proof -
  have a: "\<forall>x. fst (None :: (loc_id \<times> nat \<times> rat \<times> string \<times> source) option, 5::nat) = Some x
             \<longrightarrow> MIN_SCORE \<le> fst (snd (snd x))" by simp
  note b = lower_step_B_accepted[OF a, of g txs d 2]
  note c = lower_step_B_accepted[OF b, of g txs d 3]
  note d = lower_step_B_accepted[OF c, of g txs d 4]
  assume "fst (fold (lower_step_B g txs d) [2, 3, 4] (None, 5)) = Some (i, l, sc, tx, sr)"
  with d show ?thesis by (simp del: lower_step_B.simps)
qed

lemma department_B_score:
  assumes "MIN_SCORE \<le> fst (snd m)"
  shows "\<exists>s. MIN_SCORE \<le> s \<and> matchScore (department_B g txs m) = Some (round2 s)"
proof -
  obtain i s t src where m: "m = (i, s, t, src)" by (cases m)
  with assms have s: "MIN_SCORE \<le> s" by simp
  show ?thesis
  proof (cases "fst (fold (lower_step_B g txs i) [2, 3, 4] (None, 5))")
    case None
    with s show ?thesis
      by (auto simp: department_B_def m set_match_def simp del: lower_step_B.simps)
  next
    case (Some x)
    obtain j l sc tx sr where x: "x = (j, l, sc, tx, sr)" by (cases x)
    from lower_fold_B_accepted[OF Some[unfolded x]] have "MIN_SCORE \<le> sc" .
    with Some x show ?thesis
      by (auto simp: department_B_def m set_match_def simp del: lower_step_B.simps)
  qed
qed

lemma municipality_first_score:
  assumes "MIN_SCORE \<le> fst (snd m)"
  shows "\<exists>s. MIN_SCORE \<le> s \<and> matchScore (municipality_first g txs m) = Some (round2 s)"
proof -
  obtain i s t src where m: "m = (i, s, t, src)" by (cases m)
  with assms have s: "MIN_SCORE \<le> s" by simp
  then show ?thesis
    by (force simp: municipality_first_def m set_match_def split: option.splits)
qed

lemma strategy_B_score:
  assumes "match_listing_with_texts txs g \<noteq> empty_result"
  shows "\<exists>s. MIN_SCORE \<le> s \<and> matchScore (match_listing_with_texts txs g) = Some (round2 s)"
proof -
  have am: "\<exists>s. MIN_SCORE \<le> s \<and> matchScore (after_municipality g txs) = Some (round2 s)"
    if ne: "after_municipality g txs \<noteq> empty_result"
  proof (cases "find_match txs (groups_get g 5) None")
    case (Some m)
    obtain i s t src where m: "m = (i, s, t, src)" by (cases m)
    from find_match_Some_accepted[OF Some[unfolded m]] have "MIN_SCORE \<le> fst (snd m)"
      by (simp add: m)
    from department_B_score[OF this] Some show ?thesis
      by (simp add: after_municipality_def)
  next
    case None
    with ne show ?thesis
      by (force simp: after_municipality_def set_match_def split: option.splits if_splits)
  qed
  show ?thesis
  proof (cases "find_match txs (groups_get g 3) None")
    case None
    with assms am show ?thesis by (simp add: match_listing_with_texts_def)
  next
    case (Some m)
    obtain i s t src where m: "m = (i, s, t, src)" by (cases m)
    from find_match_Some_accepted[OF Some[unfolded m]] have acc: "MIN_SCORE \<le> s" .
    then have "MIN_SCORE \<le> fst (snd m)" by (simp add: m)
    from municipality_first_score[OF this] Some m acc show ?thesis
      by (simp add: match_listing_with_texts_def)
  qed
qed

lemma match_listing_department_found:
  "find_best_match_in_level (extract_searchable_text l) (groups_get g 5) None \<noteq> None \<Longrightarrow>
     match_listing l g \<noteq> None"
  by (auto simp: match_listing_def)


section \<open>The claims about the normaliser\<close>





section \<open>The claim about word boundaries\<close>

text \<open>
  C3, amended. For a name that begins and ends with a word character, the word-boundary
  search succeeds exactly when the name occurs in the text with no word character right
  before it and none right after it. So a name inside a longer word does not match
  ("colon" in "colonia escalon"), while a name that is a whole word of a longer phrase
  does. In Strategy B the department "Cuscatl\'an" is kept out of a listing that mentions
  "Antiguo Cuscatl\'an" by the order of the searches: with the municipality in the index,
  the listing is resolved at level 3 to it, and its chain gives its own department. A
  listing that mentions only "Cuscatl\'an" is not matched to that municipality: the
  level-3 search finds nothing and the listing is resolved to the department at level 5.
\<close>

theorem word_boundary_matching:
  "(\<forall>pat t. pat \<noteq> [] \<and> is_word_char (hd pat) \<and> is_word_char (last pat) \<longrightarrow>
       (word_search pat t \<longleftrightarrow>
          (\<exists>pre post. t = pre @ pat @ post
             \<and> (pre = [] \<or> \<not> is_word_char (last pre))
             \<and> (post = [] \<or> \<not> is_word_char (hd post)))))
   \<and> \<not> word_search ''colon'' ''colonia escalon''
   \<and> match_listing_with_texts (title_only ''Casa en Antiguo Cuscatlan'') two_departments =
       \<lparr> locGroup2Id = None, locGroup3Id = Some 20, locGroup4Id = Some 10,
         locGroup5Id = Some 1, externalId = None, matchLevel = Some 3, matchScore = Some 1,
         matchSource = Some Title, matchedText = Some (''Antiguo Cuscatl'' @ [CHR 0xE1] @ ''n'') \<rparr>
   \<and> find_match (title_only ''Casa en Cuscatlan'') (groups_get two_departments 3) None = None
   \<and> match_listing_with_texts (title_only ''Casa en Cuscatlan'') two_departments =
       \<lparr> locGroup2Id = None, locGroup3Id = None, locGroup4Id = None,
         locGroup5Id = Some 2, externalId = None, matchLevel = Some 5, matchScore = Some 1,
         matchSource = Some Title, matchedText = Some (''Cuscatl'' @ [CHR 0xE1] @ ''n'') \<rparr>"
proof (intro conjI allI impI)
  fix pat t
  assume "pat \<noteq> [] \<and> is_word_char (hd pat) \<and> is_word_char (last pat)"
  then show "word_search pat t \<longleftrightarrow>
          (\<exists>pre post. t = pre @ pat @ post
             \<and> (pre = [] \<or> \<not> is_word_char (last pre))
             \<and> (post = [] \<or> \<not> is_word_char (hd post)))"
    by (intro word_search_iff) simp_all
next
  show "\<not> word_search ''colon'' ''colonia escalon''" by code_simp
next
  show "match_listing_with_texts (title_only ''Casa en Antiguo Cuscatlan'') two_departments =
       \<lparr> locGroup2Id = None, locGroup3Id = Some 20, locGroup4Id = Some 10,
         locGroup5Id = Some 1, externalId = None, matchLevel = Some 3, matchScore = Some 1,
         matchSource = Some Title, matchedText = Some (''Antiguo Cuscatl'' @ [CHR 0xE1] @ ''n'') \<rparr>"
    by code_simp
next
  show "find_match (title_only ''Casa en Cuscatlan'') (groups_get two_departments 3) None = None"
    by code_simp
next
  show "match_listing_with_texts (title_only ''Casa en Cuscatlan'') two_departments =
       \<lparr> locGroup2Id = None, locGroup3Id = None, locGroup4Id = None,
         locGroup5Id = Some 2, externalId = None, matchLevel = Some 5, matchScore = Some 1,
         matchSource = Some Title, matchedText = Some (''Cuscatl'' @ [CHR 0xE1] @ ''n'') \<rparr>"
    by code_simp
qed

theorem word_boundary_matching_witness:
  "''colon'' \<noteq> [] \<and> is_word_char (hd ''colon'') \<and> is_word_char (last ''colon'')
   \<and> \<not> (\<exists>pre post. ''colonia escalon'' = pre @ ''colon'' @ post
           \<and> (pre = [] \<or> \<not> is_word_char (last pre))
           \<and> (post = [] \<or> \<not> is_word_char (hd post)))"
proof -
  have h: "''colon'' \<noteq> [] \<and> is_word_char (hd ''colon'') \<and> is_word_char (last ''colon'')"
    by code_simp
  from word_boundary_matching
  have a: "''colon'' \<noteq> [] \<and> is_word_char (hd ''colon'') \<and> is_word_char (last ''colon'') \<longrightarrow>
       (word_search ''colon'' ''colonia escalon'' \<longleftrightarrow>
          (\<exists>pre post. ''colonia escalon'' = pre @ ''colon'' @ post
             \<and> (pre = [] \<or> \<not> is_word_char (last pre))
             \<and> (post = [] \<or> \<not> is_word_char (hd post))))"
    and b: "\<not> word_search ''colon'' ''colonia escalon''"
    by blast+
  from a h b show ?thesis by blast
qed

section \<open>The claim about source weights\<close>

text \<open>
  C2, amended. A match returned by \<open>find_match_in_level\<close> has the base score of its entry
  (1.0 exact, 0.95 no-prefix, 0.9 alternate name) multiplied by the factor of the source:
  1.0 for the title, 0.95 for the location line, 0.85 for the details, 0.75 for the
  description. \<open>find_best_match_in_level\<close> adds 0.01 to the score of a match from the
  location line, and nothing else is applied.
\<close>

theorem source_weighting:
  "(find_match_in_level t entries src = Some (i, score, m) \<longrightarrow>
      (\<exists>info. (i, info) \<in> set entries
         \<and> fst (name_score t info) \<in> {1, 95 / 100, 9 / 10}
         \<and> score = fst (name_score t info) * source_weight src))
   \<and> (find_best_match_in_level txs entries pf = Some (j, score', m', src') \<longrightarrow>
      (\<exists>info. (j, info) \<in> set entries
         \<and> fst (name_score (texts_get txs src') info) \<in> {1, 95 / 100, 9 / 10}
         \<and> score' = fst (name_score (texts_get txs src') info) * source_weight src'
                     + (if src' = Location then 1 / 100 else 0)))
   \<and> source_weight Title = 1 \<and> source_weight Location = 95 / 100
   \<and> source_weight Details = 85 / 100 \<and> source_weight Description = 75 / 100"
proof (intro conjI impI)
  assume "find_match_in_level t entries src = Some (i, score, m)"
  from find_match_in_level_Some[OF this]
  show "\<exists>info. (i, info) \<in> set entries
         \<and> fst (name_score t info) \<in> {1, 95 / 100, 9 / 10}
         \<and> score = fst (name_score t info) * source_weight src"
    by blast
next
  assume "find_best_match_in_level txs entries pf = Some (j, score', m', src')"
  from find_best_match_in_level_Some[OF this]
  show "\<exists>info. (j, info) \<in> set entries
         \<and> fst (name_score (texts_get txs src') info) \<in> {1, 95 / 100, 9 / 10}
         \<and> score' = fst (name_score (texts_get txs src') info) * source_weight src'
                     + (if src' = Location then 1 / 100 else 0)"
    by blast
qed simp_all

theorem source_weighting_witness:
  "find_match_in_level ''la libertad'' [(D1, la_libertad)] Location
     = Some (D1, 95 / 100, ''La Libertad'')
   \<and> find_best_match_in_level (extract_searchable_text location_listing)
        [(D1, la_libertad)] None = Some (D1, 96 / 100, ''La Libertad'', Location)
   \<and> (\<exists>info. (D1, info) \<in> set [(D1, la_libertad)]
         \<and> fst (name_score ''la libertad'' info) \<in> {1, 95 / 100, 9 / 10}
         \<and> (95 / 100 :: rat) = fst (name_score ''la libertad'' info) * source_weight Location)
   \<and> (\<exists>info. (D1, info) \<in> set [(D1, la_libertad)]
         \<and> fst (name_score (texts_get (extract_searchable_text location_listing) Location) info)
             \<in> {1, 95 / 100, 9 / 10}
         \<and> (96 / 100 :: rat)
             = fst (name_score (texts_get (extract_searchable_text location_listing) Location) info)
                 * source_weight Location
               + (if Location = Location then 1 / 100 else 0))"
proof -
  have h1: "find_match_in_level ''la libertad'' [(D1, la_libertad)] Location
     = Some (D1, 95 / 100, ''La Libertad'')" by code_simp
  have h2: "find_best_match_in_level (extract_searchable_text location_listing)
        [(D1, la_libertad)] None = Some (D1, 96 / 100, ''La Libertad'', Location)" by code_simp
  from source_weighting[where t = "''la libertad''" and entries = "[(D1, la_libertad)]"
      and src = Location and i = D1 and score = "95 / 100" and m = "''La Libertad''"
      and txs = "extract_searchable_text location_listing" and pf = None
      and j = D1 and score' = "96 / 100" and m' = "''La Libertad''" and src' = Location] h1 h2
  show ?thesis by blast
qed

section \<open>The claim about the tie-breaker of Strategy B\<close>



section \<open>The claim about the returned value\<close>

text \<open>
  C8, amended. Both strategies are total functions of their input, whatever the index
  holds (missing levels, missing parents, entries without a name): every dict access of
  the source is a \<open>get\<close> with a default or follows a membership test. Strategy B always
  returns a result: the result with every field null exactly when its global searches of
  the levels 3, 5 and 2 find nothing, and otherwise a result with a chain field, a level,
  a score and a source, which the all-null result has not. Strategy A returns no result
  at all (None) exactly when no department is found and neither the level-3 nor the
  level-2 lookup reaches the minimum score; every result that it returns has a chain
  field, a level, a score and a source, and the id of the listing.
\<close>

theorem strategies_return_value:
  "(match_listing_with_texts txs g = empty_result \<longleftrightarrow>
      find_match txs (groups_get g 3) None = None
      \<and> find_match txs (groups_get g 5) None = None
      \<and> find_match txs (groups_get g 2) None = None)
   \<and> (match_listing_with_texts txs g \<noteq> empty_result \<longrightarrow>
        resolved (match_listing_with_texts txs g))
   \<and> \<not> resolved empty_result
   \<and> (match_listing l g = None \<longleftrightarrow>
        find_best_match_in_level (extract_searchable_text l) (groups_get g 5) None = None
        \<and> \<not> accepted (find_best_match_in_level (extract_searchable_text l) (groups_get g 3) None)
        \<and> \<not> accepted (find_best_match_in_level (extract_searchable_text l) (groups_get g 2) None))
   \<and> (\<forall>r. match_listing l g = Some r \<longrightarrow>
        resolved r \<and> externalId r = Some (external_id l))"
  using strategy_B_empty_iff[of txs g] strategy_B_resolved[of txs g] empty_result_not_resolved
    match_listing_None[of l g] match_listing_Some[of l g]
  by blast

theorem strategies_return_value_witness:
  "match_listing_with_texts scenario_texts scenario_groups \<noteq> empty_result
   \<and> resolved (match_listing_with_texts scenario_texts scenario_groups)
   \<and> match_listing_with_texts (title_only ''Casa en venta'') scenario_groups = empty_result
   \<and> match_listing plain_listing scenario_groups = None
   \<and> match_listing details_listing [5 \<mapsto> [(D1, la_libertad)]] =
       Some \<lparr> locGroup2Id = None, locGroup3Id = None, locGroup4Id = None, locGroup5Id = Some D1,
              externalId = Some 10, matchLevel = Some 5, matchScore = Some (85 / 100),
              matchSource = Some Details, matchedText = Some ''La Libertad'' \<rparr>
   \<and> resolved \<lparr> locGroup2Id = None, locGroup3Id = None, locGroup4Id = None, locGroup5Id = Some D1,
              externalId = Some 10, matchLevel = Some 5, matchScore = Some (85 / 100),
              matchSource = Some Details, matchedText = Some ''La Libertad'' \<rparr>"
proof -
  have h1: "match_listing_with_texts scenario_texts scenario_groups \<noteq> empty_result"
    by code_simp
  have h2: "find_match (title_only ''Casa en venta'') (groups_get scenario_groups 3) None = None
      \<and> find_match (title_only ''Casa en venta'') (groups_get scenario_groups 5) None = None
      \<and> find_match (title_only ''Casa en venta'') (groups_get scenario_groups 2) None = None"
    by code_simp
  have h3: "find_best_match_in_level (extract_searchable_text plain_listing)
               (groups_get scenario_groups 5) None = None
      \<and> \<not> accepted (find_best_match_in_level (extract_searchable_text plain_listing)
               (groups_get scenario_groups 3) None)
      \<and> \<not> accepted (find_best_match_in_level (extract_searchable_text plain_listing)
               (groups_get scenario_groups 2) None)"
    by code_simp
  have h4: "match_listing details_listing [5 \<mapsto> [(D1, la_libertad)]] =
       Some \<lparr> locGroup2Id = None, locGroup3Id = None, locGroup4Id = None, locGroup5Id = Some D1,
              externalId = Some 10, matchLevel = Some 5, matchScore = Some (85 / 100),
              matchSource = Some Details, matchedText = Some ''La Libertad'' \<rparr>"
    by code_simp
  from strategies_return_value[of scenario_texts scenario_groups] h1
  have 1: "resolved (match_listing_with_texts scenario_texts scenario_groups)" by blast
  from strategies_return_value[of "title_only ''Casa en venta''" scenario_groups] h2
  have 2: "match_listing_with_texts (title_only ''Casa en venta'') scenario_groups = empty_result"
    by blast
  from strategies_return_value[where l = plain_listing and g = scenario_groups] h3
  have 3: "match_listing plain_listing scenario_groups = None" by blast
  from strategies_return_value[where l = details_listing and g = "[5 \<mapsto> [(D1, la_libertad)]]"] h4
  have 4: "resolved \<lparr> locGroup2Id = None, locGroup3Id = None, locGroup4Id = None,
              locGroup5Id = Some D1,
              externalId = Some 10, matchLevel = Some 5, matchScore = Some (85 / 100),
              matchSource = Some Details, matchedText = Some ''La Libertad'' \<rparr>" by blast
  from h1 1 2 3 h4 4 show ?thesis by blast
qed

section \<open>Evaluations on the example data\<close>

text \<open>
  C1, as stated: a score below 0.9 is never accepted, at level 5 either, in both
  strategies. In \<open>match_listing\<close> the level-5 match is recorded as soon as it is found,
  without a comparison with \<open>MIN_SCORE\<close>: a listing that names the department only in
  its details is matched at level 5 with the score 0.85.
\<close>

theorem match_listing_department_below_threshold:
  "match_listing details_listing [5 \<mapsto> [(D1, la_libertad)]] =
     Some \<lparr> locGroup2Id = None, locGroup3Id = None, locGroup4Id = None, locGroup5Id = Some D1,
            externalId = Some 10, matchLevel = Some 5, matchScore = Some (85 / 100),
            matchSource = Some Details, matchedText = Some ''La Libertad'' \<rparr>
   \<and> (85 / 100 :: rat) < MIN_SCORE"
  by code_simp

text \<open>
  C4. The claim: an entry whose normalised name is empty never scores, in
  \<open>find_match_in_level\<close> and in \<open>find_match\<close>. \<open>find_match_in_level\<close> skips such an entry;
  \<open>find_match\<close> drops the empty name from the variants of its first check but then
  searches for it as a word, which succeeds in any text with a word in it: the nameless
  row is returned with the score 1.0.
\<close>

theorem find_match_scores_empty_name:
  "normalized (load_row nameless_row) = []
   \<and> find_match (title_only ''Casa en Nueva San Salvador'') [(7, load_row nameless_row)] None
       = Some (7, 1, [], Title)
   \<and> find_match_in_level ''casa en nueva san salvador'' [(7, load_row nameless_row)] Title
       = None"
  by code_simp

text \<open>
  C7. The claim: in a hierarchy where every parent id resolves to a node one level higher,
  the chain of a node is filled from its level up to level 5. The walk tests the parent
  id for truthiness, so the parent id 0 ends it: with the department 0 over the region 1,
  the chain of the region has no level 5.
\<close>

theorem get_parent_chain_stops_at_zero:
  "map_of (groups_get zero_department 4) 1 = Some (libertad_este 0)
   \<and> map_of (groups_get zero_department 5) 0 = Some la_libertad
   \<and> get_parent_chain 1 4 zero_department =
       \<lparr> locGroup2Id = None, locGroup3Id = None, locGroup4Id = Some 1, locGroup5Id = None \<rparr>
   \<and> get_parent_chain_local zero_department 1 4 =
       \<lparr> locGroup2Id = None, locGroup3Id = None, locGroup4Id = Some 1, locGroup5Id = None \<rparr>"
  by code_simp

text \<open>
  C6, as stated: on the scenario, Strategy B returns locGroup5Id = D1. It does not: the
  parent of M1 is recorded one level above M1, at level 4, and no level-4 entry D1 exists
  to continue from.
\<close>

theorem scenario_level5_counterexample:
  "\<not> (locGroup2Id (match_listing_with_texts scenario_texts scenario_groups) = Some C1
      \<and> locGroup3Id (match_listing_with_texts scenario_texts scenario_groups) = Some M1
      \<and> locGroup5Id (match_listing_with_texts scenario_texts scenario_groups) = Some D1)"
  by code_simp

text \<open>
  C6, amended. On the scenario, Strategy B returns locGroup2Id = C1, locGroup3Id = M1,
  locGroup4Id = D1 and no locGroup5Id, with matchLevel 2, matchScore 1.0, the source
  title and the matched text "San Francisco".
\<close>

theorem scenario_strategy_B:
  "match_listing_with_texts scenario_texts scenario_groups =
     \<lparr> locGroup2Id = Some C1, locGroup3Id = Some M1, locGroup4Id = Some D1,
       locGroup5Id = None, externalId = None, matchLevel = Some 2, matchScore = Some 1,
       matchSource = Some Title, matchedText = Some ''San Francisco'' \<rparr>"
  by code_simp

text \<open>
  C2, as stated: the location line has the factor 1.0 and nothing else is added. The
  factor is 0.95, and \<open>find_best_match_in_level\<close> adds 0.01 to a match from the location.
\<close>

theorem location_weight_counterexample:
  "find_match_in_level ''la libertad'' [(D1, la_libertad)] Location
     \<noteq> Some (D1, 1 * 1, ''La Libertad'')
   \<and> find_match_in_level ''la libertad'' [(D1, la_libertad)] Location
       = Some (D1, 95 / 100, ''La Libertad'')
   \<and> find_best_match_in_level (extract_searchable_text location_listing)
         [(D1, la_libertad)] None
       = Some (D1, 96 / 100, ''La Libertad'', Location)"
  by code_simp

text \<open>
  C3, as stated: the department "Cuscatl\'an" does not match a text that only mentions
  "antiguo cuscatlan". It does: the space before "cuscatlan" is a word boundary. When the
  municipality is not in the index, Strategy B reports the department Cuscatl\'an.
\<close>

theorem cuscatlan_counterexample:
  "word_search ''cuscatlan'' ''antiguo cuscatlan''
   \<and> find_match (title_only ''Casa en Antiguo Cuscatlan'') [(2, cuscatlan)] None
       = Some (2, 1, ''Cuscatl'' @ [CHR 0xE1] @ ''n'', Title)
   \<and> locGroup5Id (match_listing_with_texts (title_only ''Casa en Antiguo Cuscatlan'')
         without_municipality) = Some 2"
  by code_simp

text \<open>
  C8, as stated: when nothing is accepted the engine returns a result with null fields, not
  an absent value. \<open>match_listing\<close> returns None.
\<close>

theorem match_listing_none_counterexample:
  "match_listing plain_listing scenario_groups = None"
  by code_simp


section \<open>The claim about the minimum score\<close>

text \<open>
  C1, amended. Below level 5 a score under 0.9 is never accepted: every result of
  Strategy A whose level is not 5 carries the (rounded) score of a match that reached
  0.9, and so does every result of Strategy B that is not empty, at every level (its
  scores are the base scores 1.0, 0.95 and 0.9). The level-5 match of Strategy A is not
  compared with the minimum: whenever the department lookup finds a match, whatever its
  score, \<open>match_listing\<close> returns a result.
\<close>

theorem minimum_score_scope:
  "(match_listing l g = Some r \<and> matchLevel r \<noteq> Some 5 \<longrightarrow>
      (\<exists>s. MIN_SCORE \<le> s \<and> matchScore r = Some (round2 s)))
   \<and> (match_listing_with_texts txs g \<noteq> empty_result \<longrightarrow>
      (\<exists>s. MIN_SCORE \<le> s \<and> matchScore (match_listing_with_texts txs g) = Some (round2 s)))
   \<and> (find_best_match_in_level (extract_searchable_text l) (groups_get g 5) None \<noteq> None \<longrightarrow>
      match_listing l g \<noteq> None)
   \<and> MIN_SCORE = 9 / 10"
  using match_listing_lower_levels_accepted[of l g r] strategy_B_score[of txs g]
    match_listing_department_found[of l g]
  by (simp add: MIN_SCORE_def)

theorem minimum_score_scope_witness:
  "match_listing title_listing scenario_groups =
     Some \<lparr> locGroup2Id = Some C1, locGroup3Id = Some M1, locGroup4Id = Some D1,
            locGroup5Id = None, externalId = Some 13, matchLevel = Some 2,
            matchScore = Some 1, matchSource = Some Title,
            matchedText = Some ''San Francisco'' \<rparr>
   \<and> (\<exists>s. MIN_SCORE \<le> s \<and> Some (1 :: rat) = Some (round2 s))
   \<and> match_listing_with_texts scenario_texts scenario_groups \<noteq> empty_result
   \<and> (\<exists>s. MIN_SCORE \<le> s
          \<and> matchScore (match_listing_with_texts scenario_texts scenario_groups) = Some (round2 s))
   \<and> find_best_match_in_level (extract_searchable_text details_listing)
         (groups_get [5 \<mapsto> [(D1, la_libertad)]] 5) None \<noteq> None
   \<and> match_listing details_listing [5 \<mapsto> [(D1, la_libertad)]] \<noteq> None"
proof -
  let ?R = "\<lparr> locGroup2Id = Some C1, locGroup3Id = Some M1, locGroup4Id = Some D1,
            locGroup5Id = None, externalId = Some 13, matchLevel = Some 2,
            matchScore = Some 1, matchSource = Some Title,
            matchedText = Some ''San Francisco'' \<rparr>"
  have h1: "match_listing title_listing scenario_groups = Some ?R" by code_simp
  have h2: "matchLevel ?R \<noteq> Some 5" by simp
  have h3: "match_listing_with_texts scenario_texts scenario_groups \<noteq> empty_result"
    by code_simp
  have h4: "find_best_match_in_level (extract_searchable_text details_listing)
         (groups_get [5 \<mapsto> [(D1, la_libertad)]] 5) None \<noteq> None" by code_simp
  from minimum_score_scope[where l = title_listing and g = scenario_groups and r = ?R] h1 h2
  have 1: "\<exists>s. MIN_SCORE \<le> s \<and> Some (1 :: rat) = Some (round2 s)" by simp
  from minimum_score_scope[where txs = scenario_texts and g = scenario_groups] h3
  have 2: "\<exists>s. MIN_SCORE \<le> s
          \<and> matchScore (match_listing_with_texts scenario_texts scenario_groups) = Some (round2 s)"
    by blast
  from minimum_score_scope[where l = details_listing and g = "[5 \<mapsto> [(D1, la_libertad)]]"] h4
  have 3: "match_listing details_listing [5 \<mapsto> [(D1, la_libertad)]] \<noteq> None" by blast
  from h1 1 h3 2 h4 3 show ?thesis by blast
qed

end
